theory Spec2Isabelle
  imports Main "HOL-Library.Word"
begin

section \<open>Configuration values of a data source\<close>

text \<open>
  Modelled from the spec: the simplejson accessors \<open>Get\<close>, \<open>MustString\<close>, \<open>MustBool\<close> and
  \<open>MustInt\<close> that the transport code calls on \<open>ds.JsonData\<close> are not among the sources.
  The spec calls \<open>JsonData\<close> "a plain configuration mapping (string keys to arbitrary
  JSON-like values)" and treats an entry that is "absent or empty" alike: \<open>Get\<close> on a
  missing key (or on a value that is no object) gives the null value, and each \<open>Must\<close>
  accessor gives the zero value of its type when the value has another type.
  An object is an association list read with \<open>map_of\<close>: it has finitely many keys.
\<close>

datatype json =
    JNull
  | JBool bool
  | JNumber int
  | JString string
  | JArray "json list"
  | JObject "(string \<times> json) list"

fun Get :: "json \<Rightarrow> string \<Rightarrow> json" where
  "Get (JObject m) key = (case map_of m key of Some val \<Rightarrow> val | None \<Rightarrow> JNull)"
| "Get _ key = JNull"

fun MustString :: "json \<Rightarrow> string" where
  "MustString (JString s) = s"
| "MustString _ = []"

fun MustBool :: "json \<Rightarrow> bool" where
  "MustBool (JBool b) = b"
| "MustBool _ = False"

fun MustInt :: "json \<Rightarrow> int" where
  "MustInt (JNumber n) = n"
| "MustInt _ = 0"

text \<open>The keys of a configuration object (none for a value that is no object).\<close>

fun keys_of :: "json \<Rightarrow> string list" where
  "keys_of (JObject m) = map fst m"
| "keys_of _ = []"

section \<open>Decimal rendering of the header index\<close>

text \<open>
  \<open>fmt.Sprintf("httpHeaderName%d", index)\<close>: the verb \<open>%d\<close> on an index that starts at 1
  and only grows, so the rendering is the decimal digits of a natural number.
\<close>

definition digit_char :: "nat \<Rightarrow> char" where
  "digit_char d = ''0123456789'' ! d"

function itoa :: "nat \<Rightarrow> string" where
  "itoa n = (if n < 10 then [digit_char n] else itoa (n div 10) @ [digit_char (n mod 10)])"
  by pat_completeness auto
termination
  by (relation "measure id") auto

declare itoa.simps [simp del]

definition headerNameSuffix :: "nat \<Rightarrow> string" where
  "headerNameSuffix index = ''httpHeaderName'' @ itoa index"

definition headerValueSuffix :: "nat \<Rightarrow> string" where
  "headerValueSuffix index = ''httpHeaderValue'' @ itoa index"

section \<open>The custom-header scan\<close>

text \<open>
  The loop of \<open>getCustomHeaders\<close>. \<open>cfg\<close> is the (non-nil) \<open>ds.JsonData\<close>, \<open>decrypted\<close> the
  decrypted secret map, \<open>headers\<close> the map built so far. The index is a Go \<open>int\<close>; it is a
  natural number here, since the loop leaves long before \<open>2^63\<close>: it stops at the first
  index whose name key is not among the finitely many keys of \<open>cfg\<close>.
\<close>

definition pending_names :: "json \<Rightarrow> nat \<Rightarrow> string list" where
  "pending_names cfg index = filter (\<lambda>k. \<exists>i\<ge>index. k = headerNameSuffix i) (keys_of cfg)"

lemma digit_char_inj: "a < 10 \<Longrightarrow> b < 10 \<Longrightarrow> digit_char a = digit_char b \<Longrightarrow> a = b"
proof -
  assume a: "a < 10" and b: "b < 10" and e: "digit_char a = digit_char b"
  have d: "distinct ''0123456789''" by simp
  have "a < length ''0123456789''" "b < length ''0123456789''" using a b by simp_all
  with d e show "a = b" unfolding digit_char_def by (simp only: nth_eq_iff_index_eq)
qed

lemma itoa_not_Nil: "itoa n \<noteq> []"
  by (subst itoa.simps) simp

lemma itoa_inj: "itoa n = itoa m \<Longrightarrow> n = m"
proof (induction n arbitrary: m rule: itoa.induct)
  case (1 n)
  show ?case
  proof (cases "n < 10")
    case small: True
    show ?thesis
    proof (cases "m < 10")
      case True
      from "1.prems" have "[digit_char n] = [digit_char m]"
        using small True by (simp add: itoa.simps [of n] itoa.simps [of m])
      then show ?thesis using small True digit_char_inj by simp
    next
      case False
      from "1.prems" have "[digit_char n] = itoa (m div 10) @ [digit_char (m mod 10)]"
        using small False by (simp add: itoa.simps [of n] itoa.simps [of m])
      then have "itoa (m div 10) = []" by simp
      then show ?thesis using itoa_not_Nil by blast
    qed
  next
    case big: False
    show ?thesis
    proof (cases "m < 10")
      case True
      from "1.prems" have "itoa (n div 10) @ [digit_char (n mod 10)] = [digit_char m]"
        using big True by (simp add: itoa.simps [of n] itoa.simps [of m])
      then have "itoa (n div 10) = []" by simp
      then show ?thesis using itoa_not_Nil by blast
    next
      case False
      from "1.prems" have
        "itoa (n div 10) @ [digit_char (n mod 10)] = itoa (m div 10) @ [digit_char (m mod 10)]"
        using big False by (simp add: itoa.simps [of n] itoa.simps [of m])
      then have q: "itoa (n div 10) = itoa (m div 10)"
        and r: "digit_char (n mod 10) = digit_char (m mod 10)" by simp_all
      from q big have "n div 10 = m div 10" by (rule "1.IH" [rotated])
      moreover from r have "n mod 10 = m mod 10" by (intro digit_char_inj) simp_all
      ultimately show ?thesis by (metis div_mult_mod_eq)
    qed
  qed
qed

lemma headerNameSuffix_inj: "headerNameSuffix i = headerNameSuffix j \<Longrightarrow> i = j"
  by (simp add: headerNameSuffix_def itoa_inj)

lemma Get_nonempty_key: "MustString (Get cfg k) \<noteq> [] \<Longrightarrow> k \<in> set (keys_of cfg)"
proof (cases cfg)
  case (JObject m)
  assume "MustString (Get cfg k) \<noteq> []"
  with JObject obtain v where "map_of m k = Some v"
    by (cases "map_of m k") auto
  then have "(k, v) \<in> set m" by (rule map_of_SomeD)
  then show ?thesis using JObject by force
qed simp_all

lemma pending_names_decrease:
  assumes "MustString (Get cfg (headerNameSuffix index)) \<noteq> []"
  shows "length (pending_names cfg (Suc index)) < length (pending_names cfg index)"
proof -
  let ?P = "\<lambda>k. \<exists>i\<ge>Suc index. k = headerNameSuffix i"
  let ?Q = "\<lambda>k. \<exists>i\<ge>index. k = headerNameSuffix i"
  have mem: "headerNameSuffix index \<in> set (keys_of cfg)"
    using assms by (rule Get_nonempty_key)
  have sub: "\<And>k. ?P k \<Longrightarrow> ?Q k" using Suc_leD by blast
  have notP: "\<not> ?P (headerNameSuffix index)"
    using headerNameSuffix_inj by fastforce
  have Q: "?Q (headerNameSuffix index)" by blast
  have conj: "\<And>k. (?Q k \<and> ?P k) = ?P k" using sub by blast
  have eq: "filter ?P (keys_of cfg) = filter ?P (filter ?Q (keys_of cfg))"
    by (simp only: filter_filter conj)
  have inQ: "headerNameSuffix index \<in> set (filter ?Q (keys_of cfg))"
    using mem Q by simp
  have "length (filter ?P (filter ?Q (keys_of cfg))) < length (filter ?Q (keys_of cfg))"
    using inQ notP by (intro length_filter_less)
  then show ?thesis unfolding pending_names_def using eq by simp
qed

text \<open>Lines 356 to 358: the header is set when the secret map has the value key.\<close>

definition setHeader ::
  "(string \<rightharpoonup> string) \<Rightarrow> nat \<Rightarrow> string \<Rightarrow> (string \<rightharpoonup> string) \<Rightarrow> (string \<rightharpoonup> string)" where
  "setHeader decrypted index key headers =
     (case decrypted (headerValueSuffix index) of
        Some val \<Rightarrow> headers(key \<mapsto> val)
      | None \<Rightarrow> headers)"

function scanHeaders ::
  "json \<Rightarrow> (string \<rightharpoonup> string) \<Rightarrow> nat \<Rightarrow> (string \<rightharpoonup> string) \<Rightarrow> (string \<rightharpoonup> string)" where
  "scanHeaders cfg decrypted index headers =
     (let key = MustString (Get cfg (headerNameSuffix index)) in
      if key = [] then headers
      else scanHeaders cfg decrypted (Suc index) (setHeader decrypted index key headers))"
  by pat_completeness auto
termination
  by (relation "measure (\<lambda>(cfg, decrypted, index, headers). length (pending_names cfg index))")
     (auto intro: pending_names_decrease)

declare scanHeaders.simps [simp del]

section \<open>Data sources, settings and the process-wide state\<close>

text \<open>
  \<open>time.Time\<close> is the instant it denotes: \<open>Equal\<close> compares instants, so it is equality
  here. A \<open>time.Duration\<close> is a 64-bit count of nanoseconds.
\<close>

type_synonym time = int
type_synonym duration = "64 word"
type_synonym addr = nat

definition seconds :: "int \<Rightarrow> duration" where
  "seconds n = word_of_int n * 1000000000"

text \<open>The fields of \<open>DataSource\<close> that the transport code reads.\<close>

record DataSource =
  DsId :: "64 word"
  Name :: string
  Type :: string
  JsonData :: "json option"
  SecureJsonData :: "(string \<times> string) list"
  Updated :: time

datatype x509Certificate = X509Certificate string
datatype tlsCertificate = TlsCertificate string string

text \<open>
  What the transport code takes from outside its file: the data source type constants, the
  process-wide settings of package \<open>setting\<close>, the secret store's \<open>Decrypt\<close>, and the two
  parsers of the standard library. \<open>parsePEM\<close> gives the certificates that
  \<open>AppendCertsFromPEM\<close> finds in a bundle; \<open>X509KeyPair\<close> gives a certificate or an error
  message. \<open>Decrypt\<close> is a function of the encrypted entries alone: a secret store that
  fails to decrypt is outside this model.
\<close>

record env =
  DS_ES :: string
  DS_ES_OPEN_DISTRO :: string
  DS_PROMETHEUS :: string
  SigV4AuthEnabled :: bool
  DataProxyTimeout :: int
  DataProxyKeepAlive :: int
  DataProxyTLSHandshakeTimeout :: int
  DataProxyExpectContinueTimeout :: int
  DataProxyMaxIdleConns :: int
  DataProxyIdleConnTimeout :: int
  Decrypt :: "(string \<times> string) list \<Rightarrow> (string \<rightharpoonup> string)"
  parsePEM :: "string \<Rightarrow> x509Certificate list"
  X509KeyPair :: "string \<Rightarrow> string \<Rightarrow> string + tlsCertificate"

datatype renegotiation = RenegotiateNever | RenegotiateOnceAsClient | RenegotiateFreelyAsClient

record tlsConfig =
  InsecureSkipVerify :: bool
  ServerName :: string
  RootCAs :: "x509Certificate list option"
  Certificates :: "tlsCertificate list"
  Renegotiation :: renegotiation

datatype proxy = ProxyFromEnvironment

record httpTransport =
  TLSClientConfig :: tlsConfig
  Proxy :: proxy
  DialTimeout :: duration
  DialKeepAlive :: duration
  TLSHandshakeTimeout :: duration
  ExpectContinueTimeout :: duration
  MaxIdleConns :: int
  IdleConnTimeout :: duration

record sigv4Config =
  Service :: string
  AccessKey :: string
  SecretKey :: string
  Region :: string
  AssumeRoleARN :: string
  AuthType :: string
  ExternalID :: string
  Profile :: string

text \<open>
  An \<open>http.RoundTripper\<close> of this file is the base transport (a pointer to an
  \<open>http.Transport\<close>) or the signer that \<open>sigv4.New\<close> makes from a configuration and the
  round tripper it delegates to.
\<close>

datatype roundTripper =
    BaseTransport addr
  | SigV4 sigv4Config roundTripper

record dataSourceTransport =
  datasourceName :: string
  headers :: "string \<rightharpoonup> string"
  transport :: addr
  "next" :: roundTripper

datatype obj =
    HttpTransportObj httpTransport
  | DataSourceTransportObj dataSourceTransport

record cachedTransport =
  ct_updated :: time
  ct_dataSourceTransport :: addr

record cachedDecryptedJSON =
  dj_updated :: time
  dj_json :: "string \<rightharpoonup> string"

text \<open>
  The state the functions share: the two package-level caches \<open>ptc\<close> and
  \<open>dsDecryptionCache\<close>, the objects allocated so far (an address is an index of \<open>heap\<close>; a
  new object gets the next index, so two allocations never give the same pointer), and the
  number of calls of the secret store's \<open>Decrypt\<close> made so far.
\<close>

record state =
  ptc :: "64 word \<rightharpoonup> cachedTransport"
  dsDecryptionCache :: "64 word \<rightharpoonup> cachedDecryptedJSON"
  heap :: "obj list"
  decryptCalls :: nat

definition init_state :: state where
  "init_state = \<lparr>ptc = Map.empty, dsDecryptionCache = Map.empty, heap = [], decryptCalls = 0\<rparr>"

definition alloc :: "obj \<Rightarrow> state \<Rightarrow> addr \<times> state" where
  "alloc x s = (length (heap s), s\<lparr>heap := heap s @ [x]\<rparr>)"

text \<open>A call of \<open>ds.SecureJsonData.Decrypt()\<close>: the decrypted map, and one more call counted.\<close>

definition callDecrypt :: "env \<Rightarrow> DataSource \<Rightarrow> state \<Rightarrow> (string \<rightharpoonup> string) \<times> state" where
  "callDecrypt env ds s = (Decrypt env (SecureJsonData ds), s\<lparr>decryptCalls := Suc (decryptCalls s)\<rparr>)"

text \<open>Reading a Go \<open>map[string]string\<close> at a key: the empty string when the key is absent.\<close>

definition index_map :: "(string \<rightharpoonup> string) \<Rightarrow> string \<Rightarrow> string" where
  "index_map m k = (case m k of Some v \<Rightarrow> v | None \<Rightarrow> [])"

datatype error =
    ErrorsNew string
  | KeyPairError string

datatype panic =
    UnsupportedDatasource string
  | NilPointerDereference

datatype 'a outcome =
    Return 'a
  | Panicked panic

section \<open>The functions of the transport code\<close>

definition getTimeout :: "env \<Rightarrow> DataSource \<Rightarrow> duration" where
  "getTimeout env ds =
     (let timeout = (case JsonData ds of None \<Rightarrow> 0 | Some j \<Rightarrow> MustInt (Get j ''timeout''));
          timeout = (if timeout = 0 then DataProxyTimeout env else timeout)
      in seconds timeout)"

definition awsServiceNamespace :: "env \<Rightarrow> string \<Rightarrow> string outcome" where
  "awsServiceNamespace env dsType =
     (if dsType = DS_ES env \<or> dsType = DS_ES_OPEN_DISTRO env then Return ''es''
      else if dsType = DS_PROMETHEUS env then Return ''aps''
      else Panicked (UnsupportedDatasource dsType))"

definition DecryptedValues :: "env \<Rightarrow> DataSource \<Rightarrow> state \<Rightarrow> (string \<rightharpoonup> string) \<times> state" where
  "DecryptedValues env ds s =
     (case dsDecryptionCache s (DsId ds) of
        Some item \<Rightarrow>
          if Updated ds = dj_updated item then (dj_json item, s)
          else (case callDecrypt env ds s of (json, s1) \<Rightarrow>
                  (json, s1\<lparr>dsDecryptionCache := (dsDecryptionCache s1)
                               (DsId ds \<mapsto> \<lparr>dj_updated = Updated ds, dj_json = json\<rparr>)\<rparr>))
      | None \<Rightarrow>
          (case callDecrypt env ds s of (json, s1) \<Rightarrow>
             (json, s1\<lparr>dsDecryptionCache := (dsDecryptionCache s1)
                          (DsId ds \<mapsto> \<lparr>dj_updated = Updated ds, dj_json = json\<rparr>)\<rparr>)))"

definition DecryptedValue ::
  "env \<Rightarrow> DataSource \<Rightarrow> string \<Rightarrow> state \<Rightarrow> (string \<times> bool) \<times> state" where
  "DecryptedValue env ds key s =
     (case DecryptedValues env ds s of (m, s1) \<Rightarrow>
        (case m key of Some v \<Rightarrow> ((v, True), s1) | None \<Rightarrow> (([], False), s1)))"

definition ClearDSDecryptionCache :: "state \<Rightarrow> state" where
  "ClearDSDecryptionCache s = s\<lparr>dsDecryptionCache := Map.empty\<rparr>"

definition getCustomHeaders :: "env \<Rightarrow> DataSource \<Rightarrow> state \<Rightarrow> (string \<rightharpoonup> string) \<times> state" where
  "getCustomHeaders env ds s =
     (case JsonData ds of
        None \<Rightarrow> (Map.empty, s)
      | Some cfg \<Rightarrow>
          (case callDecrypt env ds s of (decrypted, s1) \<Rightarrow>
             (scanHeaders cfg decrypted 1 Map.empty, s1)))"

text \<open>
  \<open>caPool.AppendCertsFromPEM\<close>: the certificates found are added to the pool, and the
  result says whether any was found.
\<close>

definition AppendCertsFromPEM ::
  "env \<Rightarrow> x509Certificate list \<Rightarrow> string \<Rightarrow> x509Certificate list \<times> bool" where
  "AppendCertsFromPEM env caPool pemCerts =
     (caPool @ parsePEM env pemCerts, parsePEM env pemCerts \<noteq> [])"

definition GetTLSConfig :: "env \<Rightarrow> DataSource \<Rightarrow> state \<Rightarrow> (error + tlsConfig) \<times> state" where
  "GetTLSConfig env ds s =
     (let tlsClientAuth =
            (case JsonData ds of None \<Rightarrow> False | Some j \<Rightarrow> MustBool (Get j ''tlsAuth''));
          tlsAuthWithCACert =
            (case JsonData ds of None \<Rightarrow> False | Some j \<Rightarrow> MustBool (Get j ''tlsAuthWithCACert''));
          tlsSkipVerify =
            (case JsonData ds of None \<Rightarrow> False | Some j \<Rightarrow> MustBool (Get j ''tlsSkipVerify''));
          serverName =
            (case JsonData ds of None \<Rightarrow> [] | Some j \<Rightarrow> MustString (Get j ''serverName''));
          tlsConfig = \<lparr>InsecureSkipVerify = tlsSkipVerify, ServerName = serverName,
                       RootCAs = None, Certificates = [], Renegotiation = RenegotiateNever\<rparr>
      in
      if tlsClientAuth \<or> tlsAuthWithCACert then
        (case callDecrypt env ds s of (decrypted, s1) \<Rightarrow>
           (case (if tlsAuthWithCACert \<and> 0 < length (index_map decrypted ''tlsCACert'') then
                    (case AppendCertsFromPEM env [] (index_map decrypted ''tlsCACert'') of
                       (caPool, ok) \<Rightarrow>
                         if \<not> ok then Inl (ErrorsNew ''failed to parse TLS CA PEM certificate'')
                         else Inr (tlsConfig\<lparr>RootCAs := Some caPool\<rparr>))
                  else Inr tlsConfig) of
              Inl err \<Rightarrow> (Inl err, s1)
            | Inr tlsConfig \<Rightarrow>
                if tlsClientAuth then
                  (case X509KeyPair env (index_map decrypted ''tlsClientCert'')
                                        (index_map decrypted ''tlsClientKey'') of
                     Inl err \<Rightarrow> (Inl (KeyPairError err), s1)
                   | Inr cert \<Rightarrow> (Inr (tlsConfig\<lparr>Certificates := [cert]\<rparr>), s1))
                else (Inr tlsConfig, s1)))
      else (Inr tlsConfig, s))"

text \<open>
  \<open>sigV4Middleware\<close> reads the decrypted secrets first, then evaluates the fields of the
  signer's configuration in order, so \<open>awsServiceNamespace\<close> panics before any other field
  is read. A nil \<open>JsonData\<close> cannot be read.
\<close>

definition sigV4Middleware ::
  "env \<Rightarrow> DataSource \<Rightarrow> roundTripper \<Rightarrow> state \<Rightarrow> roundTripper outcome \<times> state" where
  "sigV4Middleware env ds nxt s =
     (case DecryptedValues env ds s of (decrypted, s1) \<Rightarrow>
        (case awsServiceNamespace env (Type ds) of
           Panicked p \<Rightarrow> (Panicked p, s1)
         | Return service \<Rightarrow>
             (case JsonData ds of
                None \<Rightarrow> (Panicked NilPointerDereference, s1)
              | Some j \<Rightarrow>
                  (Return (SigV4 \<lparr>Service = service,
                                  AccessKey = index_map decrypted ''sigV4AccessKey'',
                                  SecretKey = index_map decrypted ''sigV4SecretKey'',
                                  Region = MustString (Get j ''sigV4Region''),
                                  AssumeRoleARN = MustString (Get j ''sigV4AssumeRoleArn''),
                                  AuthType = MustString (Get j ''sigV4AuthType''),
                                  ExternalID = MustString (Get j ''sigV4ExternalId''),
                                  Profile = MustString (Get j ''sigV4Profile'')\<rparr> nxt), s1))))"

text \<open>The test of line 116: signing is on in the resource's configuration and in the settings.\<close>

definition sigV4Wanted :: "env \<Rightarrow> DataSource \<Rightarrow> bool" where
  "sigV4Wanted env ds =
     ((case JsonData ds of None \<Rightarrow> False | Some j \<Rightarrow> MustBool (Get j ''sigV4Auth''))
      \<and> SigV4AuthEnabled env)"

text \<open>The last statements of \<open>GetHttpTransport\<close>: the handler is allocated, stored and returned.\<close>

definition storeTransport ::
  "DataSource \<Rightarrow> (string \<rightharpoonup> string) \<Rightarrow> addr \<Rightarrow> roundTripper \<Rightarrow> state
     \<Rightarrow> (error + addr) outcome \<times> state" where
  "storeTransport ds customHeaders tr nxt s =
     (case alloc (DataSourceTransportObj
                    \<lparr>datasourceName = Name ds, headers = customHeaders,
                     transport = tr, next = nxt\<rparr>) s of
        (dsTransport, s1) \<Rightarrow>
          (Return (Inr dsTransport),
           s1\<lparr>ptc := (ptc s1)(DsId ds \<mapsto>
                  \<lparr>ct_updated = Updated ds, ct_dataSourceTransport = dsTransport\<rparr>)\<rparr>))"

text \<open>\<open>GetHttpTransport\<close> after the cache lookup has missed (from the call of \<open>GetTLSConfig\<close> on).\<close>

definition buildHttpTransport ::
  "env \<Rightarrow> DataSource \<Rightarrow> state \<Rightarrow> (error + addr) outcome \<times> state" where
  "buildHttpTransport env ds s =
     (case GetTLSConfig env ds s of
        (Inl err, s1) \<Rightarrow> (Return (Inl err), s1)
      | (Inr tlsConfig0, s1) \<Rightarrow>
          (let tlsConfig = tlsConfig0\<lparr>Renegotiation := RenegotiateFreelyAsClient\<rparr> in
           case getCustomHeaders env ds s1 of (customHeaders, s2) \<Rightarrow>
             (case alloc (HttpTransportObj
                      \<lparr>TLSClientConfig = tlsConfig,
                       Proxy = ProxyFromEnvironment,
                       DialTimeout = getTimeout env ds,
                       DialKeepAlive = seconds (DataProxyKeepAlive env),
                       TLSHandshakeTimeout = seconds (DataProxyTLSHandshakeTimeout env),
                       ExpectContinueTimeout = seconds (DataProxyExpectContinueTimeout env),
                       MaxIdleConns = DataProxyMaxIdleConns env,
                       IdleConnTimeout = seconds (DataProxyIdleConnTimeout env)\<rparr>) s2 of
                (tr, s3) \<Rightarrow>
                  if sigV4Wanted env ds then
                    (case sigV4Middleware env ds (BaseTransport tr) s3 of
                       (Panicked p, s4) \<Rightarrow> (Panicked p, s4)
                     | (Return nxt, s4) \<Rightarrow> storeTransport ds customHeaders tr nxt s4)
                  else storeTransport ds customHeaders tr (BaseTransport tr) s3)))"

text \<open>Whether the transport cache holds an entry for the data source with its timestamp.\<close>

definition cacheValid :: "DataSource \<Rightarrow> state \<Rightarrow> bool" where
  "cacheValid ds s =
     (case ptc s (DsId ds) of Some t \<Rightarrow> Updated ds = ct_updated t | None \<Rightarrow> False)"

definition GetHttpTransport ::
  "env \<Rightarrow> DataSource \<Rightarrow> state \<Rightarrow> (error + addr) outcome \<times> state" where
  "GetHttpTransport env ds s =
     (case ptc s (DsId ds) of
        Some t \<Rightarrow>
          if Updated ds = ct_updated t then (Return (Inr (ct_dataSourceTransport t)), s)
          else buildHttpTransport env ds s
      | None \<Rightarrow> buildHttpTransport env ds s)"

text \<open>The header name that the scan reads at an index.\<close>

definition headerName :: "json \<Rightarrow> nat \<Rightarrow> string" where
  "headerName cfg index = MustString (Get cfg (headerNameSuffix index))"

text \<open>Whether request signing is switched on in the resource's own configuration.\<close>

definition sigV4Auth :: "DataSource \<Rightarrow> bool" where
  "sigV4Auth ds = (case JsonData ds of None \<Rightarrow> False | Some j \<Rightarrow> MustBool (Get j ''sigV4Auth''))"

text \<open>The data source types that \<open>awsServiceNamespace\<close> knows.\<close>

definition recognized :: "env \<Rightarrow> string \<Rightarrow> bool" where
  "recognized env dsType =
     (dsType = DS_ES env \<or> dsType = DS_ES_OPEN_DISTRO env \<or> dsType = DS_PROMETHEUS env)"

text \<open>
  The round tripper that a build starting in state \<open>s\<close> gives the handler as its delegate,
  when the base transport is at address \<open>tr\<close>.
\<close>

definition nextOf :: "env \<Rightarrow> DataSource \<Rightarrow> state \<Rightarrow> addr \<Rightarrow> roundTripper outcome" where
  "nextOf env ds s tr =
     (if sigV4Wanted env ds then fst (sigV4Middleware env ds (BaseTransport tr) s)
      else Return (BaseTransport tr))"

text \<open>
  A sequence of \<open>GetHttpTransport\<close> calls, one per data source of the list, each on the
  state the call before it left. A panic ends its call only: the deferred unlock runs and
  the caches stay as they were when it was raised.
\<close>

fun run :: "env \<Rightarrow> DataSource list \<Rightarrow> state \<Rightarrow> (error + addr) outcome list \<times> state" where
  "run env [] s = ([], s)"
| "run env (d # ds) s =
     (case GetHttpTransport env d s of
        (r, s1) \<Rightarrow> (case run env ds s1 of (rs, s2) \<Rightarrow> (r # rs, s2)))"

text \<open>Whether a call of \<open>GetHttpTransport\<close> gave no handler: an error value or a panic.\<close>

fun failed :: "(error + addr) outcome \<Rightarrow> bool" where
  "failed (Return (Inr h)) = False"
| "failed _ = True"

text \<open>
  Whether the object at address \<open>h\<close> is a handler whose base transport carries a TLS
  configuration with renegotiation freely initiated by the client.
\<close>

definition renegotiates :: "obj list \<Rightarrow> addr \<Rightarrow> bool" where
  "renegotiates hp h =
     (h < length hp \<and>
      (case hp ! h of
         DataSourceTransportObj d \<Rightarrow>
           transport d < length hp \<and>
           (case hp ! transport d of
              HttpTransportObj T \<Rightarrow>
                Renegotiation (TLSClientConfig T) = RenegotiateFreelyAsClient
            | DataSourceTransportObj d' \<Rightarrow> False)
       | HttpTransportObj T \<Rightarrow> False))"

definition cache_renegotiates :: "state \<Rightarrow> bool" where
  "cache_renegotiates s =
     (\<forall>i t. ptc s i = Some t \<longrightarrow> renegotiates (heap s) (ct_dataSourceTransport t))"

section \<open>Example inputs\<close>

text \<open>
  Settings with request signing switched on, a secret store whose \<open>Decrypt\<close> is the
  identity on each entry, a PEM parser that knows one bundle, and a key-pair check that
  accepts equal certificate and key bytes.
\<close>

definition env0 :: env where
  "env0 = \<lparr>DS_ES = ''elasticsearch'', DS_ES_OPEN_DISTRO = ''grafana-es-open-distro-datasource'',
     DS_PROMETHEUS = ''prometheus'', SigV4AuthEnabled = True, DataProxyTimeout = 30,
     DataProxyKeepAlive = 30, DataProxyTLSHandshakeTimeout = 10, DataProxyExpectContinueTimeout = 1,
     DataProxyMaxIdleConns = 100, DataProxyIdleConnTimeout = 90,
     Decrypt = map_of, parsePEM = (\<lambda>b. if b = ''PEM'' then [X509Certificate b] else []),
     X509KeyPair = (\<lambda>c k. if c = k then Inr (TlsCertificate c k) else Inl ''tls: private key does not match public key'')\<rparr>"

definition dsGap :: DataSource where
 "dsGap = \<lparr>DsId = 7, Name = ''gap'', Type = ''prometheus'',
    JsonData = Some (JObject [(''httpHeaderName1'', JString ''X-A''), (''httpHeaderName3'', JString ''X-C'')]),
    SecureJsonData = [(''httpHeaderValue1'', ''a''), (''httpHeaderValue3'', ''c'')], Updated = 1\<rparr>"

definition dsNoValue :: DataSource where
 "dsNoValue = \<lparr>DsId = 8, Name = ''novalue'', Type = ''prometheus'',
    JsonData = Some (JObject [(''httpHeaderName1'', JString ''X-A''), (''httpHeaderName2'', JString ''X-B'')]),
    SecureJsonData = [(''httpHeaderValue2'', ''b'')], Updated = 1\<rparr>"

text \<open>The same settings with request signing switched off.\<close>

definition envOff :: env where
  "envOff = env0\<lparr>SigV4AuthEnabled := False\<rparr>"

text \<open>The resource of the spec's end-to-end example, and the same with an unknown type.\<close>

definition dsES :: DataSource where
  "dsES = \<lparr>DsId = 7, Name = ''es'', Type = ''elasticsearch'',
     JsonData = Some (JObject [(''sigV4Auth'', JBool True), (''sigV4Region'', JString ''us-east-1'')]),
     SecureJsonData = [(''sigV4AccessKey'', ''AK''), (''sigV4SecretKey'', ''SK'')],
     Updated = 1\<rparr>"

definition dsUnknown :: DataSource where
  "dsUnknown = dsES\<lparr>Type := ''unknown-plugin''\<rparr>"

text \<open>A resource without signing, and its update whose client key does not fit.\<close>

definition dsPlain :: DataSource where
  "dsPlain = \<lparr>DsId = 5, Name = ''plain'', Type = ''prometheus'',
     JsonData = Some (JObject [(''timeout'', JNumber 5)]),
     SecureJsonData = [], Updated = 1\<rparr>"



text \<open>Resources that pin a CA: one with bytes that hold no certificate, one with a bundle.\<close>

definition dsBadCA :: DataSource where
  "dsBadCA = \<lparr>DsId = 9, Name = ''ca'', Type = ''prometheus'',
     JsonData = Some (JObject [(''tlsAuthWithCACert'', JBool True)]),
     SecureJsonData = [(''tlsCACert'', ''not a certificate'')], Updated = 1\<rparr>"

definition dsGoodCA :: DataSource where
  "dsGoodCA = dsBadCA\<lparr>SecureJsonData := [(''tlsCACert'', ''PEM'')]\<rparr>"

text \<open>The state after the first \<open>GetHttpTransport\<close> call for \<open>dsPlain\<close>.\<close>

definition statePlain :: state where
  "statePlain =
     \<lparr>ptc = [5 \<mapsto> \<lparr>ct_updated = 1, ct_dataSourceTransport = 1\<rparr>],
      dsDecryptionCache = Map.empty,
      heap = [HttpTransportObj
                \<lparr>TLSClientConfig =
                   \<lparr>InsecureSkipVerify = False, ServerName = [], RootCAs = None,
                    Certificates = [], Renegotiation = RenegotiateFreelyAsClient\<rparr>,
                 Proxy = ProxyFromEnvironment, DialTimeout = seconds 5,
                 DialKeepAlive = seconds 30, TLSHandshakeTimeout = seconds 10,
                 ExpectContinueTimeout = seconds 1, MaxIdleConns = 100,
                 IdleConnTimeout = seconds 90\<rparr>,
              DataSourceTransportObj
                \<lparr>datasourceName = ''plain'', headers = Map.empty, transport = 0,
                 next = BaseTransport 0\<rparr>],
      decryptCalls = 1\<rparr>"

section \<open>What each function does to the state\<close>

lemma callDecrypt_state:
  "callDecrypt env ds s = (m, s1) \<Longrightarrow>
     m = Decrypt env (SecureJsonData ds) \<and> ptc s1 = ptc s \<and> heap s1 = heap s
     \<and> dsDecryptionCache s1 = dsDecryptionCache s \<and> decryptCalls s1 = Suc (decryptCalls s)"
  by (auto simp: callDecrypt_def)

lemma GetTLSConfig_state:
  "GetTLSConfig env ds s = (r, s1) \<Longrightarrow>
     ptc s1 = ptc s \<and> heap s1 = heap s \<and> dsDecryptionCache s1 = dsDecryptionCache s"
  by (auto simp: GetTLSConfig_def Let_def callDecrypt_def AppendCertsFromPEM_def
           split: if_splits sum.splits prod.splits)

lemma GetTLSConfig_result:
  "fst (GetTLSConfig env ds s) = fst (GetTLSConfig env ds t)"
  by (simp add: GetTLSConfig_def Let_def callDecrypt_def AppendCertsFromPEM_def
           split: if_splits sum.splits prod.splits)

lemma getCustomHeaders_state:
  "getCustomHeaders env ds s = (h, s1) \<Longrightarrow>
     ptc s1 = ptc s \<and> heap s1 = heap s \<and> dsDecryptionCache s1 = dsDecryptionCache s"
  by (auto simp: getCustomHeaders_def callDecrypt_def split: option.splits)

lemma DecryptedValues_state:
  "DecryptedValues env ds s = (m, s1) \<Longrightarrow> ptc s1 = ptc s \<and> heap s1 = heap s"
  by (auto simp: DecryptedValues_def callDecrypt_def split: option.splits if_splits)

lemma sigV4Middleware_state:
  "sigV4Middleware env ds nxt s = (r, s1) \<Longrightarrow> ptc s1 = ptc s \<and> heap s1 = heap s"
  by (auto simp: sigV4Middleware_def split: prod.splits outcome.splits option.splits
           dest: DecryptedValues_state)


lemma getCustomHeaders_result:
  "fst (getCustomHeaders env ds s) = fst (getCustomHeaders env ds t)"
  by (simp add: getCustomHeaders_def callDecrypt_def split: option.splits)

lemma DecryptedValues_result:
  "dsDecryptionCache s = dsDecryptionCache t \<Longrightarrow>
     fst (DecryptedValues env ds s) = fst (DecryptedValues env ds t)"
  by (simp add: DecryptedValues_def callDecrypt_def split: option.splits)

lemma awsServiceNamespace_recognized:
  "recognized env t \<Longrightarrow> \<exists>svc. awsServiceNamespace env t = Return svc \<and> (svc = ''es'' \<or> svc = ''aps'')"
  by (auto simp: recognized_def awsServiceNamespace_def)

lemma awsServiceNamespace_unrecognized:
  "\<not> recognized env t \<Longrightarrow> awsServiceNamespace env t = Panicked (UnsupportedDatasource t)"
  by (simp add: recognized_def awsServiceNamespace_def)

lemma sigV4Wanted_JsonData: "sigV4Wanted env ds \<Longrightarrow> \<exists>j. JsonData ds = Some j"
  by (cases "JsonData ds") (simp_all add: sigV4Wanted_def)

lemma sigV4Middleware_result:
  assumes "JsonData ds = Some j"
  shows "fst (sigV4Middleware env ds nxt s) =
     (case awsServiceNamespace env (Type ds) of
        Panicked p \<Rightarrow> Panicked p
      | Return service \<Rightarrow>
          Return (SigV4 \<lparr>Service = service,
                    AccessKey = index_map (fst (DecryptedValues env ds s)) ''sigV4AccessKey'',
                    SecretKey = index_map (fst (DecryptedValues env ds s)) ''sigV4SecretKey'',
                    Region = MustString (Get j ''sigV4Region''),
                    AssumeRoleARN = MustString (Get j ''sigV4AssumeRoleArn''),
                    AuthType = MustString (Get j ''sigV4AuthType''),
                    ExternalID = MustString (Get j ''sigV4ExternalId''),
                    Profile = MustString (Get j ''sigV4Profile'')\<rparr> nxt))"
  using assms by (simp add: sigV4Middleware_def split: prod.splits outcome.splits)

lemma sigV4Middleware_result_cong:
  assumes "dsDecryptionCache s = dsDecryptionCache t"
  shows "fst (sigV4Middleware env ds nxt s) = fst (sigV4Middleware env ds nxt t)"
proof -
  obtain m s1 where a: "DecryptedValues env ds s = (m, s1)" by (cases "DecryptedValues env ds s")
  obtain m' t1 where b: "DecryptedValues env ds t = (m', t1)" by (cases "DecryptedValues env ds t")
  have "m = m'" using DecryptedValues_result [OF assms, of env ds] a b by simp
  then show ?thesis
    by (simp add: sigV4Middleware_def a b split: outcome.splits option.splits)
qed

lemma buildHttpTransport_tls_error:
  assumes "fst (GetTLSConfig env ds s) = Inl err"
  shows "buildHttpTransport env ds s = (Return (Inl err), snd (GetTLSConfig env ds s))"
  using assms by (cases "GetTLSConfig env ds s") (simp add: buildHttpTransport_def)

lemma buildHttpTransport_tls_ok:
  assumes tls: "fst (GetTLSConfig env ds s) = Inr cfg"
  shows "case nextOf env ds s (length (heap s)) of
           Panicked p \<Rightarrow>
             fst (buildHttpTransport env ds s) = Panicked p
             \<and> ptc (snd (buildHttpTransport env ds s)) = ptc s
             \<and> (\<exists>T. heap (snd (buildHttpTransport env ds s)) = heap s @ [HttpTransportObj T])
         | Return nxt \<Rightarrow>
             fst (buildHttpTransport env ds s) = Return (Inr (Suc (length (heap s))))
             \<and> ptc (snd (buildHttpTransport env ds s)) =
                 (ptc s)(DsId ds \<mapsto> \<lparr>ct_updated = Updated ds,
                                      ct_dataSourceTransport = Suc (length (heap s))\<rparr>)
             \<and> (\<exists>T. heap (snd (buildHttpTransport env ds s)) =
                   heap s @ [HttpTransportObj T,
                             DataSourceTransportObj
                               \<lparr>datasourceName = Name ds,
                                headers = fst (getCustomHeaders env ds s),
                                transport = length (heap s), next = nxt\<rparr>]
                   \<and> TLSClientConfig T = cfg\<lparr>Renegotiation := RenegotiateFreelyAsClient\<rparr>
                   \<and> DialTimeout T = getTimeout env ds)"
proof -
  obtain s1 where g: "GetTLSConfig env ds s = (Inr cfg, s1)"
    using tls by (cases "GetTLSConfig env ds s") simp
  obtain hd s2 where c: "getCustomHeaders env ds s1 = (hd, s2)"
    by (cases "getCustomHeaders env ds s1")
  have s1: "ptc s1 = ptc s" "heap s1 = heap s" "dsDecryptionCache s1 = dsDecryptionCache s"
    using GetTLSConfig_state [OF g] by simp_all
  have s2: "ptc s2 = ptc s" "heap s2 = heap s" "dsDecryptionCache s2 = dsDecryptionCache s"
    using getCustomHeaders_state [OF c] s1 by simp_all
  have hd: "hd = fst (getCustomHeaders env ds s)"
    using c getCustomHeaders_result [of env ds s1 s] by simp
  let ?T = "\<lparr>TLSClientConfig = cfg\<lparr>Renegotiation := RenegotiateFreelyAsClient\<rparr>,
             Proxy = ProxyFromEnvironment,
             DialTimeout = getTimeout env ds,
             DialKeepAlive = seconds (DataProxyKeepAlive env),
             TLSHandshakeTimeout = seconds (DataProxyTLSHandshakeTimeout env),
             ExpectContinueTimeout = seconds (DataProxyExpectContinueTimeout env),
             MaxIdleConns = DataProxyMaxIdleConns env,
             IdleConnTimeout = seconds (DataProxyIdleConnTimeout env)\<rparr>"
  let ?s3 = "s2\<lparr>heap := heap s2 @ [HttpTransportObj ?T]\<rparr>"
  let ?tr = "length (heap s)"
  have unfold: "buildHttpTransport env ds s =
      (if sigV4Wanted env ds then
         (case sigV4Middleware env ds (BaseTransport ?tr) ?s3 of
            (Panicked p, s4) \<Rightarrow> (Panicked p, s4)
          | (Return nxt, s4) \<Rightarrow> storeTransport ds hd ?tr nxt s4)
       else storeTransport ds hd ?tr (BaseTransport ?tr) ?s3)"
    unfolding s2(2) [symmetric] by (simp add: buildHttpTransport_def g c alloc_def)
  show ?thesis
  proof (cases "sigV4Wanted env ds")
    case False
    then show ?thesis
      using unfold by (simp add: nextOf_def storeTransport_def alloc_def s2 hd)
  next
    case True
    obtain r s4 where m: "sigV4Middleware env ds (BaseTransport ?tr) ?s3 = (r, s4)"
      by (cases "sigV4Middleware env ds (BaseTransport ?tr) ?s3")
    have s4: "ptc s4 = ptc s" "heap s4 = heap s @ [HttpTransportObj ?T]"
      using sigV4Middleware_state [OF m] s2 by simp_all
    obtain j where j: "JsonData ds = Some j" using True sigV4Wanted_JsonData by blast
    have "dsDecryptionCache ?s3 = dsDecryptionCache s" using s2 by simp
    then have "fst (sigV4Middleware env ds (BaseTransport ?tr) ?s3) =
               fst (sigV4Middleware env ds (BaseTransport ?tr) s)"
      by (rule sigV4Middleware_result_cong)
    then have r: "nextOf env ds s ?tr = r" using True m by (simp add: nextOf_def)
    show ?thesis
    proof (cases r)
      case (Panicked p)
      then show ?thesis using unfold True m r s4 by simp
    next
      case (Return nxt)
      then show ?thesis
        using unfold True m r s4 by (simp add: storeTransport_def alloc_def hd)
    qed
  qed
qed

lemma GetHttpTransport_hit:
  "ptc s (DsId ds) = Some t \<Longrightarrow> Updated ds = ct_updated t \<Longrightarrow>
     GetHttpTransport env ds s = (Return (Inr (ct_dataSourceTransport t)), s)"
  by (simp add: GetHttpTransport_def)

lemma GetHttpTransport_miss:
  "\<not> cacheValid ds s \<Longrightarrow> GetHttpTransport env ds s = buildHttpTransport env ds s"
  by (simp add: GetHttpTransport_def cacheValid_def split: option.splits)

section \<open>The header scan stops at the first missing name\<close>

lemma scanHeaders_stop: "headerName cfg index = [] \<Longrightarrow> scanHeaders cfg decrypted index hdrs = hdrs"
  by (subst scanHeaders.simps) (simp add: headerName_def)

lemma scanHeaders_step: "headerName cfg index \<noteq> [] \<Longrightarrow>
  scanHeaders cfg decrypted index hdrs =
    scanHeaders cfg decrypted (Suc index) (setHeader decrypted index (headerName cfg index) hdrs)"
  by (subst scanHeaders.simps) (simp add: headerName_def Let_def)

lemma scanHeaders_upto:
  "index \<le> g \<Longrightarrow> (\<forall>i. index \<le> i \<and> i < g \<longrightarrow> headerName cfg i \<noteq> []) \<Longrightarrow> headerName cfg g = [] \<Longrightarrow>
   scanHeaders cfg decrypted index hdrs =
     foldl (\<lambda>h i. setHeader decrypted i (headerName cfg i) h) hdrs [index..<g]"
proof (induction "g - index" arbitrary: index hdrs)
  case 0
  then have "index = g" by simp
  with 0 show ?case by (simp add: scanHeaders_stop)
next
  case (Suc d)
  then have lt: "index < g" by simp
  with Suc.prems have ne: "headerName cfg index \<noteq> []" by simp
  have "scanHeaders cfg decrypted (Suc index) (setHeader decrypted index (headerName cfg index) hdrs)
      = foldl (\<lambda>h i. setHeader decrypted i (headerName cfg i) h) (setHeader decrypted index (headerName cfg index) hdrs) [Suc index..<g]"
    using Suc.hyps(2) Suc.prems lt by (intro Suc.hyps(1)) auto
  then show ?case using ne lt by (simp add: scanHeaders_step upt_conv_Cons)
qed

lemma itoa_small: "n < 10 \<Longrightarrow> itoa n = [digit_char n]" by (subst itoa.simps) simp
lemma itoa_1: "itoa 1 = ''1''" by (simp add: itoa_small digit_char_def)
lemma itoa_2: "itoa 2 = ''2''" by (simp add: itoa_small digit_char_def)
lemma itoa_3: "itoa 3 = ''3''" by (simp add: itoa_small digit_char_def)
lemma itoa_S1: "itoa (Suc 0) = ''1''" by (simp add: itoa_small digit_char_def)

lemma suffix_simps:
  "headerNameSuffix (Suc 0) = ''httpHeaderName1''" "headerNameSuffix 2 = ''httpHeaderName2''"
  "headerNameSuffix 3 = ''httpHeaderName3''"
  "headerValueSuffix (Suc 0) = ''httpHeaderValue1''" "headerValueSuffix 2 = ''httpHeaderValue2''"
  "headerValueSuffix 3 = ''httpHeaderValue3''"
  by (simp_all add: headerNameSuffix_def headerValueSuffix_def itoa_S1 itoa_2 itoa_3)

text \<open>
  C4: the scan of \<open>getCustomHeaders\<close> starts at index 1 and stops at the first index \<open>g\<close>
  whose header name is absent or empty: the result is built from the indices below \<open>g\<close>
  alone. With names at indices 1 and 3 but not 2 the result holds at most the header of
  index 1 (with the value the secret map has for it), whatever is configured at index 3.
\<close>

theorem getCustomHeaders_first_gap:
  assumes cfg: "JsonData ds = Some cfg"
  shows "(\<forall>g\<ge>1. (\<forall>i. 1 \<le> i \<and> i < g \<longrightarrow> headerName cfg i \<noteq> []) \<and> headerName cfg g = [] \<longrightarrow>
            fst (getCustomHeaders env ds s) =
              foldl (\<lambda>h i. setHeader (Decrypt env (SecureJsonData ds)) i (headerName cfg i) h)
                Map.empty [1..<g])
       \<and> (headerName cfg 1 \<noteq> [] \<and> headerName cfg 2 = [] \<and> headerName cfg 3 \<noteq> [] \<longrightarrow>
            fst (getCustomHeaders env ds s) =
              (case Decrypt env (SecureJsonData ds) (headerValueSuffix 1) of
                 Some val \<Rightarrow> [headerName cfg 1 \<mapsto> val]
               | None \<Rightarrow> Map.empty))"
proof -
  have res: "fst (getCustomHeaders env ds s) =
      scanHeaders cfg (Decrypt env (SecureJsonData ds)) 1 Map.empty"
    using cfg by (simp add: getCustomHeaders_def callDecrypt_def)
  have general: "fst (getCustomHeaders env ds s) =
      foldl (\<lambda>h i. setHeader (Decrypt env (SecureJsonData ds)) i (headerName cfg i) h)
        Map.empty [1..<g]"
    if "1 \<le> g" "\<forall>i. 1 \<le> i \<and> i < g \<longrightarrow> headerName cfg i \<noteq> []" "headerName cfg g = []" for g
    unfolding res using that by (rule scanHeaders_upto)
  have special: "fst (getCustomHeaders env ds s) =
      (case Decrypt env (SecureJsonData ds) (headerValueSuffix 1) of
         Some val \<Rightarrow> [headerName cfg 1 \<mapsto> val]
       | None \<Rightarrow> Map.empty)"
    if n1: "headerName cfg 1 \<noteq> []" and n2: "headerName cfg 2 = []"
  proof -
    have "\<forall>i. 1 \<le> i \<and> i < 2 \<longrightarrow> headerName cfg i \<noteq> []"
    proof (intro allI impI)
      fix i :: nat assume "1 \<le> i \<and> i < 2"
      then have "i = 1" by simp
      then show "headerName cfg i \<noteq> []" using n1 by simp
    qed
    then have "fst (getCustomHeaders env ds s) =
      foldl (\<lambda>h i. setHeader (Decrypt env (SecureJsonData ds)) i (headerName cfg i) h)
        Map.empty [1..<2]"
      using n2 by (intro general) simp_all
    moreover have "[1..<2] = [1::nat]" by (simp add: upt_conv_Cons)
    ultimately show ?thesis by (simp add: setHeader_def split: option.split)
  qed
  show ?thesis using general special by blast
qed

theorem getCustomHeaders_first_gap_witness:
  "JsonData dsGap = Some (JObject [(''httpHeaderName1'', JString ''X-A''), (''httpHeaderName3'', JString ''X-C'')])
   \<and> headerName (JObject [(''httpHeaderName1'', JString ''X-A''), (''httpHeaderName3'', JString ''X-C'')]) 3 = ''X-C''
   \<and> Decrypt env0 (SecureJsonData dsGap) (headerValueSuffix 3) = Some ''c''
   \<and> fst (getCustomHeaders env0 dsGap init_state) = [''X-A'' \<mapsto> ''a'']"
  using getCustomHeaders_first_gap [of dsGap
      "JObject [(''httpHeaderName1'', JString ''X-A''), (''httpHeaderName3'', JString ''X-C'')]"
      env0 init_state]
  by (simp add: dsGap_def env0_def headerName_def suffix_simps)

lemma foldl_setHeader_present:
  "foldl (\<lambda>h i. setHeader decrypted i (nm i) h) h0 xs =
   foldl (\<lambda>h i. h(nm i \<mapsto> index_map decrypted (headerValueSuffix i))) h0
     (filter (\<lambda>i. decrypted (headerValueSuffix i) \<noteq> None) xs)"
  by (induction xs arbitrary: h0) (auto simp: setHeader_def index_map_def)

lemma foldl_setHeader_skip:
  "decrypted (headerValueSuffix n) = None \<Longrightarrow>
   foldl (\<lambda>h i. setHeader decrypted i (nm i) h) h0 xs =
   foldl (\<lambda>h i. setHeader decrypted i (nm i) h) h0 (filter (\<lambda>i. i \<noteq> n) xs)"
  by (induction xs arbitrary: h0) (auto simp: setHeader_def)

text \<open>
  C10: a missing value never ends the scan. When \<open>g\<close> is the first index whose header name
  is empty, the result of \<open>getCustomHeaders\<close> holds the name/value pairs of exactly those
  indices below \<open>g\<close> whose value key is in the decrypted secret map, set in the order of the
  indices. So for an index \<open>n\<close> below \<open>g\<close> whose name is not empty but whose value key is
  absent, the result is what the scan over the indices below \<open>g\<close> other than \<open>n\<close> gives:
  the pair of \<open>n\<close> is left out and the indices after \<open>n\<close> are still read.
\<close>

theorem getCustomHeaders_missing_value:
  assumes cfg: "JsonData ds = Some cfg"
      and g: "1 \<le> g"
      and names: "\<forall>i. 1 \<le> i \<and> i < g \<longrightarrow> headerName cfg i \<noteq> []"
      and gap: "headerName cfg g = []"
  shows "fst (getCustomHeaders env ds s) =
           foldl (\<lambda>h i. h(headerName cfg i \<mapsto>
                          index_map (Decrypt env (SecureJsonData ds)) (headerValueSuffix i)))
             Map.empty
             (filter (\<lambda>i. Decrypt env (SecureJsonData ds) (headerValueSuffix i) \<noteq> None) [1..<g])
       \<and> (\<forall>n. 1 \<le> n \<and> n < g \<and> Decrypt env (SecureJsonData ds) (headerValueSuffix n) = None \<longrightarrow>
            fst (getCustomHeaders env ds s) =
              foldl (\<lambda>h i. setHeader (Decrypt env (SecureJsonData ds)) i (headerName cfg i) h)
                Map.empty (filter (\<lambda>i. i \<noteq> n) [1..<g]))"
proof -
  let ?dec = "Decrypt env (SecureJsonData ds)"
  have "fst (getCustomHeaders env ds s) = scanHeaders cfg ?dec 1 Map.empty"
    using cfg by (simp add: getCustomHeaders_def callDecrypt_def)
  also have "\<dots> = foldl (\<lambda>h i. setHeader ?dec i (headerName cfg i) h) Map.empty [1..<g]"
    using g names gap by (rule scanHeaders_upto)
  finally have res: "fst (getCustomHeaders env ds s) =
      foldl (\<lambda>h i. setHeader ?dec i (headerName cfg i) h) Map.empty [1..<g]" .
  have present: "fst (getCustomHeaders env ds s) =
      foldl (\<lambda>h i. h(headerName cfg i \<mapsto> index_map ?dec (headerValueSuffix i))) Map.empty
        (filter (\<lambda>i. ?dec (headerValueSuffix i) \<noteq> None) [1..<g])"
    unfolding res by (rule foldl_setHeader_present)
  have skip: "fst (getCustomHeaders env ds s) =
      foldl (\<lambda>h i. setHeader ?dec i (headerName cfg i) h) Map.empty (filter (\<lambda>i. i \<noteq> n) [1..<g])"
    if "?dec (headerValueSuffix n) = None" for n
    unfolding res using that by (rule foldl_setHeader_skip)
  show ?thesis using present skip by blast
qed

theorem getCustomHeaders_missing_value_witness:
  "JsonData dsNoValue =
     Some (JObject [(''httpHeaderName1'', JString ''X-A''), (''httpHeaderName2'', JString ''X-B'')])
   \<and> headerName (JObject [(''httpHeaderName1'', JString ''X-A''), (''httpHeaderName2'', JString ''X-B'')]) 1 = ''X-A''
   \<and> headerName (JObject [(''httpHeaderName1'', JString ''X-A''), (''httpHeaderName2'', JString ''X-B'')]) 2 = ''X-B''
   \<and> headerName (JObject [(''httpHeaderName1'', JString ''X-A''), (''httpHeaderName2'', JString ''X-B'')]) 3 = []
   \<and> Decrypt env0 (SecureJsonData dsNoValue) (headerValueSuffix 1) = None
   \<and> Decrypt env0 (SecureJsonData dsNoValue) (headerValueSuffix 2) = Some ''b''
   \<and> fst (getCustomHeaders env0 dsNoValue init_state) = [''X-B'' \<mapsto> ''b'']"
proof -
  let ?cfg = "JObject [(''httpHeaderName1'', JString ''X-A''), (''httpHeaderName2'', JString ''X-B'')]"
  let ?dec = "Decrypt env0 (SecureJsonData dsNoValue)"
  have c: "JsonData dsNoValue = Some ?cfg" by (simp add: dsNoValue_def)
  have n1: "headerName ?cfg 1 = ''X-A''" by (simp add: headerName_def suffix_simps)
  have n2: "headerName ?cfg 2 = ''X-B''" by (simp add: headerName_def suffix_simps)
  have n3: "headerName ?cfg 3 = []" by (simp add: headerName_def suffix_simps)
  have v1: "?dec (headerValueSuffix 1) = None"
    by (simp add: env0_def dsNoValue_def suffix_simps)
  have v2: "?dec (headerValueSuffix 2) = Some ''b''"
    by (simp add: env0_def dsNoValue_def suffix_simps)
  have g: "(1::nat) \<le> 3" by simp
  have names: "\<forall>i. 1 \<le> i \<and> i < 3 \<longrightarrow> headerName ?cfg i \<noteq> []"
  proof (intro allI impI)
    fix i :: nat assume "1 \<le> i \<and> i < 3"
    then have "i = 1 \<or> i = 2" by arith
    then show "headerName ?cfg i \<noteq> []" using n1 n2 by auto
  qed
  note th = getCustomHeaders_missing_value [OF c g names n3, of env0 init_state]
  have upt: "[1..<3] = [1, 2::nat]" by (simp add: upt_rec)
  from th have "(1::nat) \<le> 1 \<and> (1::nat) < 3 \<and> ?dec (headerValueSuffix 1) = None \<longrightarrow>
      fst (getCustomHeaders env0 dsNoValue init_state) =
        foldl (\<lambda>h i. setHeader ?dec i (headerName ?cfg i) h) Map.empty
          (filter (\<lambda>i. i \<noteq> 1) [1..<3])"
    by blast
  then have "fst (getCustomHeaders env0 dsNoValue init_state) =
        foldl (\<lambda>h i. setHeader ?dec i (headerName ?cfg i) h) Map.empty
          (filter (\<lambda>i. i \<noteq> 1) [1..<3])"
    using v1 by simp
  also have "\<dots> = setHeader ?dec 2 (headerName ?cfg 2) Map.empty"
    unfolding upt by simp
  also have "\<dots> = [''X-B'' \<mapsto> ''b'']"
    using v2 n2 by (simp add: setHeader_def)
  finally have r: "fst (getCustomHeaders env0 dsNoValue init_state) = [''X-B'' \<mapsto> ''b'']" .
  show ?thesis using c n1 n2 n3 v1 v2 r by blast
qed

section \<open>The transport cache\<close>

lemmas build_defs =
  GetHttpTransport_def buildHttpTransport_def GetTLSConfig_def getCustomHeaders_def
  callDecrypt_def alloc_def sigV4Wanted_def storeTransport_def getTimeout_def
  sigV4Middleware_def DecryptedValues_def awsServiceNamespace_def index_map_def
  AppendCertsFromPEM_def

text \<open>The first build for the example resource \<open>dsPlain\<close>, evaluated.\<close>

lemma build_dsPlain:
  "GetHttpTransport env0 dsPlain init_state = (Return (Inr 1), statePlain)"
  by (simp add: build_defs init_state_def dsPlain_def env0_def statePlain_def
        scanHeaders_stop headerName_def suffix_simps)

text \<open>
  C2: when the transport cache holds an entry for the resource id whose timestamp equals
  the resource's \<open>Updated\<close>, \<open>GetHttpTransport\<close> returns the cached handler pointer and leaves
  the whole state as it was: no object is allocated and the secret store is not called.
  Any number of repeated calls give the same pointer.
\<close>

theorem GetHttpTransport_cached_identity:
  assumes "ptc s (DsId ds) = Some t" and "Updated ds = ct_updated t"
  shows "GetHttpTransport env ds s = (Return (Inr (ct_dataSourceTransport t)), s)
       \<and> run env (replicate n ds) s = (replicate n (Return (Inr (ct_dataSourceTransport t))), s)"
proof -
  have one: "GetHttpTransport env ds s = (Return (Inr (ct_dataSourceTransport t)), s)"
    using assms by (rule GetHttpTransport_hit)
  have "run env (replicate n ds) s = (replicate n (Return (Inr (ct_dataSourceTransport t))), s)"
    by (induction n) (simp_all add: one)
  with one show ?thesis by simp
qed

theorem GetHttpTransport_cached_identity_witness:
  "ptc statePlain (DsId dsPlain) = Some \<lparr>ct_updated = 1, ct_dataSourceTransport = 1\<rparr>
   \<and> Updated dsPlain = 1
   \<and> run env0 [dsPlain, dsPlain, dsPlain] statePlain =
       ([Return (Inr 1), Return (Inr 1), Return (Inr 1)], statePlain)"
proof -
  have a: "ptc statePlain (DsId dsPlain) = Some \<lparr>ct_updated = 1, ct_dataSourceTransport = 1\<rparr>"
    by (simp add: statePlain_def dsPlain_def)
  have b: "Updated dsPlain = ct_updated \<lparr>ct_updated = 1, ct_dataSourceTransport = 1\<rparr>"
    by (simp add: dsPlain_def)
  have "replicate 3 dsPlain = [dsPlain, dsPlain, dsPlain]" by (simp add: eval_nat_numeral)
  moreover have "replicate 3 (Return (Inr (1::nat)) :: (error + addr) outcome) =
      [Return (Inr 1), Return (Inr 1), Return (Inr 1)]"
    by (simp add: eval_nat_numeral)
  ultimately show ?thesis
    using GetHttpTransport_cached_identity [OF a b, of env0 3] a b by simp
qed

section \<open>The decryption cache\<close>

text \<open>
  C8: \<open>ClearDSDecryptionCache\<close> leaves the decryption cache empty. The next
  \<open>DecryptedValues\<close> or \<open>DecryptedValue\<close> call for any resource calls the secret store's
  \<open>Decrypt\<close> once more, answers from its result and stores it as the only entry. (The
  lock that makes the clear atomic among threads is outside this sequential model.)
\<close>

theorem ClearDSDecryptionCache_forces_decrypt:
  "dsDecryptionCache (ClearDSDecryptionCache s) = Map.empty
   \<and> DecryptedValues env ds (ClearDSDecryptionCache s) =
       (Decrypt env (SecureJsonData ds),
        s\<lparr>dsDecryptionCache :=
             [DsId ds \<mapsto> \<lparr>dj_updated = Updated ds, dj_json = Decrypt env (SecureJsonData ds)\<rparr>],
           decryptCalls := Suc (decryptCalls s)\<rparr>)
   \<and> DecryptedValue env ds key (ClearDSDecryptionCache s) =
       ((case Decrypt env (SecureJsonData ds) key of Some v \<Rightarrow> (v, True) | None \<Rightarrow> ([], False)),
        s\<lparr>dsDecryptionCache :=
             [DsId ds \<mapsto> \<lparr>dj_updated = Updated ds, dj_json = Decrypt env (SecureJsonData ds)\<rparr>],
           decryptCalls := Suc (decryptCalls s)\<rparr>)"
  by (simp add: ClearDSDecryptionCache_def DecryptedValues_def DecryptedValue_def callDecrypt_def
           split: option.splits)

section \<open>The TLS configuration\<close>

lemma GetTLSConfig_pool_nonempty:
  "fst (GetTLSConfig env ds s) = Inr cfg \<Longrightarrow> RootCAs cfg \<noteq> Some []"
  by (auto simp: GetTLSConfig_def Let_def callDecrypt_def AppendCertsFromPEM_def
           split: if_splits sum.splits prod.splits)

text \<open>
  C7: when CA pinning is requested and the decrypted \<open>tlsCACert\<close> bytes are not empty but
  hold no certificate, \<open>GetTLSConfig\<close> returns the error "failed to parse TLS CA PEM
  certificate"; and no configuration that \<open>GetTLSConfig\<close> returns has an empty pool of
  root certificates.
\<close>

theorem GetTLSConfig_ca_parse_failure:
  "(JsonData ds = Some j \<and> MustBool (Get j ''tlsAuthWithCACert'')
      \<and> index_map (Decrypt env (SecureJsonData ds)) ''tlsCACert'' \<noteq> []
      \<and> parsePEM env (index_map (Decrypt env (SecureJsonData ds)) ''tlsCACert'') = []
      \<longrightarrow> fst (GetTLSConfig env ds s) = Inl (ErrorsNew ''failed to parse TLS CA PEM certificate''))
   \<and> (\<forall>cfg. fst (GetTLSConfig env ds s) = Inr cfg \<longrightarrow> RootCAs cfg \<noteq> Some [])"
proof (intro conjI impI allI)
  assume "JsonData ds = Some j \<and> MustBool (Get j ''tlsAuthWithCACert'')
      \<and> index_map (Decrypt env (SecureJsonData ds)) ''tlsCACert'' \<noteq> []
      \<and> parsePEM env (index_map (Decrypt env (SecureJsonData ds)) ''tlsCACert'') = []"
  then show "fst (GetTLSConfig env ds s) = Inl (ErrorsNew ''failed to parse TLS CA PEM certificate'')"
    by (simp add: GetTLSConfig_def Let_def callDecrypt_def AppendCertsFromPEM_def)
next
  fix cfg assume "fst (GetTLSConfig env ds s) = Inr cfg"
  then show "RootCAs cfg \<noteq> Some []" by (rule GetTLSConfig_pool_nonempty)
qed

theorem GetTLSConfig_ca_parse_failure_witness:
  "JsonData dsBadCA = Some (JObject [(''tlsAuthWithCACert'', JBool True)])
   \<and> index_map (Decrypt env0 (SecureJsonData dsBadCA)) ''tlsCACert'' = ''not a certificate''
   \<and> parsePEM env0 ''not a certificate'' = []
   \<and> fst (GetTLSConfig env0 dsBadCA init_state) =
       Inl (ErrorsNew ''failed to parse TLS CA PEM certificate'')
   \<and> fst (GetTLSConfig env0 dsGoodCA init_state) =
       Inr \<lparr>InsecureSkipVerify = False, ServerName = [], RootCAs = Some [X509Certificate ''PEM''],
            Certificates = [], Renegotiation = RenegotiateNever\<rparr>
   \<and> RootCAs \<lparr>InsecureSkipVerify = False, ServerName = [], RootCAs = Some [X509Certificate ''PEM''],
            Certificates = [], Renegotiation = RenegotiateNever\<rparr> \<noteq> Some []"
proof -
  have good: "fst (GetTLSConfig env0 dsGoodCA init_state) =
       Inr \<lparr>InsecureSkipVerify = False, ServerName = [], RootCAs = Some [X509Certificate ''PEM''],
            Certificates = [], Renegotiation = RenegotiateNever\<rparr>"
    by (simp add: GetTLSConfig_def dsGoodCA_def dsBadCA_def env0_def callDecrypt_def
          AppendCertsFromPEM_def index_map_def)
  have hyp: "JsonData dsBadCA = Some (JObject [(''tlsAuthWithCACert'', JBool True)])"
       "index_map (Decrypt env0 (SecureJsonData dsBadCA)) ''tlsCACert'' = ''not a certificate''"
       "parsePEM env0 ''not a certificate'' = []"
    by (simp_all add: dsBadCA_def env0_def index_map_def)
  show ?thesis
    using GetTLSConfig_ca_parse_failure
            [of dsBadCA "JObject [(''tlsAuthWithCACert'', JBool True)]" env0 init_state]
          GetTLSConfig_ca_parse_failure [of dsGoodCA _ env0 init_state]
          good hyp
    by simp
qed

section \<open>Builds that give no handler\<close>

lemma sigV4Wanted_iff: "sigV4Wanted env ds \<longleftrightarrow> sigV4Auth ds \<and> SigV4AuthEnabled env"
  by (simp add: sigV4Wanted_def sigV4Auth_def)

lemma nextOf_plain: "\<not> sigV4Wanted env ds \<Longrightarrow> nextOf env ds s tr = Return (BaseTransport tr)"
  by (simp add: nextOf_def)

lemma nextOf_signed:
  assumes "sigV4Wanted env ds"
  shows "nextOf env ds s tr =
     (case awsServiceNamespace env (Type ds) of
        Panicked p \<Rightarrow> Panicked p
      | Return service \<Rightarrow>
          Return (SigV4 \<lparr>Service = service,
                    AccessKey = index_map (fst (DecryptedValues env ds s)) ''sigV4AccessKey'',
                    SecretKey = index_map (fst (DecryptedValues env ds s)) ''sigV4SecretKey'',
                    Region = (case JsonData ds of None \<Rightarrow> [] | Some j \<Rightarrow> MustString (Get j ''sigV4Region'')),
                    AssumeRoleARN = (case JsonData ds of None \<Rightarrow> [] | Some j \<Rightarrow> MustString (Get j ''sigV4AssumeRoleArn'')),
                    AuthType = (case JsonData ds of None \<Rightarrow> [] | Some j \<Rightarrow> MustString (Get j ''sigV4AuthType'')),
                    ExternalID = (case JsonData ds of None \<Rightarrow> [] | Some j \<Rightarrow> MustString (Get j ''sigV4ExternalId'')),
                    Profile = (case JsonData ds of None \<Rightarrow> [] | Some j \<Rightarrow> MustString (Get j ''sigV4Profile''))\<rparr>
                 (BaseTransport tr)))"
proof -
  obtain j where j: "JsonData ds = Some j" using assms sigV4Wanted_JsonData by blast
  show ?thesis using assms by (simp add: nextOf_def sigV4Middleware_result [OF j] j split: outcome.split)
qed

lemma nextOf_panic_iff:
  "nextOf env ds s tr = Panicked p \<longleftrightarrow>
     sigV4Wanted env ds \<and> \<not> recognized env (Type ds) \<and> p = UnsupportedDatasource (Type ds)"
proof (cases "sigV4Wanted env ds")
  case False
  then show ?thesis by (simp add: nextOf_plain)
next
  case True
  show ?thesis
  proof (cases "recognized env (Type ds)")
    case r: True
    then obtain svc where "awsServiceNamespace env (Type ds) = Return svc"
      using awsServiceNamespace_recognized by blast
    then show ?thesis using True r by (simp add: nextOf_signed)
  next
    case r: False
    then show ?thesis
      using True by (auto simp add: nextOf_signed awsServiceNamespace_unrecognized)
  qed
qed

lemma failed_iff: "failed r \<longleftrightarrow> (\<forall>h. r \<noteq> Return (Inr h))"
  by (cases r rule: failed.cases) simp_all

text \<open>What a build that gives no handler leaves behind, and why it gave none.\<close>

lemma buildHttpTransport_failed:
  assumes "failed (fst (buildHttpTransport env ds s))"
  shows "ptc (snd (buildHttpTransport env ds s)) = ptc s
       \<and> ((\<exists>err. fst (GetTLSConfig env ds s) = Inl err
               \<and> fst (buildHttpTransport env ds s) = Return (Inl err)
               \<and> snd (buildHttpTransport env ds s) = snd (GetTLSConfig env ds s))
          \<or> (\<exists>cfg. fst (GetTLSConfig env ds s) = Inr cfg \<and> sigV4Wanted env ds
               \<and> \<not> recognized env (Type ds)
               \<and> fst (buildHttpTransport env ds s) = Panicked (UnsupportedDatasource (Type ds))))"
proof (cases "fst (GetTLSConfig env ds s)")
  case (Inl err)
  have "ptc (snd (GetTLSConfig env ds s)) = ptc s"
    using GetTLSConfig_state [of env ds s] by (cases "GetTLSConfig env ds s") simp
  then show ?thesis using Inl by (simp add: buildHttpTransport_tls_error)
next
  case (Inr cfg)
  note ok = buildHttpTransport_tls_ok [OF Inr]
  show ?thesis
  proof (cases "nextOf env ds s (length (heap s))")
    case (Return nxt)
    with ok assms show ?thesis by simp
  next
    case (Panicked p)
    then have "sigV4Wanted env ds" "\<not> recognized env (Type ds)" "p = UnsupportedDatasource (Type ds)"
      by (simp_all add: nextOf_panic_iff)
    then show ?thesis using ok Panicked Inr by simp
  qed
qed

lemma GetTLSConfig_error_decrypts:
  "fst (GetTLSConfig env ds s) = Inl err \<Longrightarrow>
     snd (GetTLSConfig env ds s) = s\<lparr>decryptCalls := Suc (decryptCalls s)\<rparr>"
  by (auto simp: GetTLSConfig_def Let_def callDecrypt_def AppendCertsFromPEM_def
           split: if_splits sum.splits prod.splits)

lemma failed_not_hit:
  assumes "failed (fst (GetHttpTransport env ds s))"
  shows "\<not> cacheValid ds s"
  using assms by (auto simp: GetHttpTransport_def cacheValid_def split: option.splits if_splits)

text \<open>
  C6: when a \<open>GetHttpTransport\<close> call gives no handler (it returns an error, as when
  \<open>GetTLSConfig\<close> fails, or it panics), the transport cache is as it was before the call, so
  the lookup of the next call for the same resource misses again and the build is run
  again, with the same outcome. After a TLS error the only change of the state is the
  counted call of the secret store, and the next call makes that call once more.
\<close>

theorem GetHttpTransport_failure_not_cached:
  assumes call: "GetHttpTransport env ds s = (r, s')" and fail: "failed r"
  shows "ptc s' = ptc s
       \<and> \<not> cacheValid ds s'
       \<and> GetHttpTransport env ds s' = buildHttpTransport env ds s'
       \<and> fst (GetHttpTransport env ds s') = r
       \<and> (\<forall>err. r = Return (Inl err) \<longrightarrow>
            fst (GetTLSConfig env ds s) = Inl err
            \<and> s' = s\<lparr>decryptCalls := Suc (decryptCalls s)\<rparr>
            \<and> snd (GetHttpTransport env ds s') = s'\<lparr>decryptCalls := Suc (decryptCalls s')\<rparr>)"
proof -
  have miss: "\<not> cacheValid ds s" using call fail failed_not_hit [of env ds s] by simp
  then have b: "buildHttpTransport env ds s = (r, s')"
    using call by (simp add: GetHttpTransport_miss)
  note f = buildHttpTransport_failed [of env ds s, unfolded b, simplified, OF fail]
  have ptc: "ptc s' = ptc s" using f by simp
  then have miss': "\<not> cacheValid ds s'" using miss by (simp add: cacheValid_def)
  then have again: "GetHttpTransport env ds s' = buildHttpTransport env ds s'"
    by (rule GetHttpTransport_miss)
  have tls': "fst (GetTLSConfig env ds s') = fst (GetTLSConfig env ds s)"
    by (rule GetTLSConfig_result)
  from f have "(\<exists>err. fst (GetTLSConfig env ds s) = Inl err \<and> r = Return (Inl err)
                   \<and> s' = snd (GetTLSConfig env ds s))
            \<or> (\<exists>cfg. fst (GetTLSConfig env ds s) = Inr cfg \<and> sigV4Wanted env ds
                   \<and> \<not> recognized env (Type ds) \<and> r = Panicked (UnsupportedDatasource (Type ds)))"
    by simp
  then show ?thesis
  proof (elim disjE exE conjE)
    fix err
    assume e: "fst (GetTLSConfig env ds s) = Inl err" and r: "r = Return (Inl err)"
       and s': "s' = snd (GetTLSConfig env ds s)"
    have e': "fst (GetTLSConfig env ds s') = Inl err" using e tls' by simp
    have b': "buildHttpTransport env ds s' = (Return (Inl err), snd (GetTLSConfig env ds s'))"
      using e' by (rule buildHttpTransport_tls_error)
    show ?thesis
      using ptc miss' again b' r e s' GetTLSConfig_error_decrypts [OF e]
            GetTLSConfig_error_decrypts [OF e']
      by simp
  next
    fix cfg
    assume e: "fst (GetTLSConfig env ds s) = Inr cfg" and w: "sigV4Wanted env ds"
       and u: "\<not> recognized env (Type ds)" and r: "r = Panicked (UnsupportedDatasource (Type ds))"
    have e': "fst (GetTLSConfig env ds s') = Inr cfg" using e tls' by simp
    have "nextOf env ds s' (length (heap s')) = Panicked (UnsupportedDatasource (Type ds))"
      using w u by (simp add: nextOf_panic_iff)
    then have "fst (buildHttpTransport env ds s') = Panicked (UnsupportedDatasource (Type ds))"
      using buildHttpTransport_tls_ok [OF e'] by simp
    then show ?thesis using ptc miss' again r by simp
  qed
qed


theorem GetHttpTransport_failure_not_cached_witness:
  "GetHttpTransport env0 dsBadCA init_state =
     (Return (Inl (ErrorsNew ''failed to parse TLS CA PEM certificate'')),
      init_state\<lparr>decryptCalls := 1\<rparr>)
   \<and> failed (Return (Inl (ErrorsNew ''failed to parse TLS CA PEM certificate'')))
   \<and> ptc (init_state\<lparr>decryptCalls := 1\<rparr>) = ptc init_state
   \<and> fst (GetHttpTransport env0 dsBadCA (init_state\<lparr>decryptCalls := 1\<rparr>)) =
       Return (Inl (ErrorsNew ''failed to parse TLS CA PEM certificate''))
   \<and> snd (GetHttpTransport env0 dsBadCA (init_state\<lparr>decryptCalls := 1\<rparr>)) =
       init_state\<lparr>decryptCalls := 2\<rparr>
   \<and> fst (GetHttpTransport env0 dsUnknown init_state) =
       Panicked (UnsupportedDatasource ''unknown-plugin'')
   \<and> failed (Panicked (UnsupportedDatasource ''unknown-plugin''))
   \<and> ptc (snd (GetHttpTransport env0 dsUnknown init_state)) = ptc init_state
   \<and> fst (GetHttpTransport env0 dsUnknown (snd (GetHttpTransport env0 dsUnknown init_state))) =
       Panicked (UnsupportedDatasource ''unknown-plugin'')"
proof -
  have call: "GetHttpTransport env0 dsBadCA init_state =
     (Return (Inl (ErrorsNew ''failed to parse TLS CA PEM certificate'')),
      init_state\<lparr>decryptCalls := 1\<rparr>)"
    by (simp add: build_defs init_state_def dsBadCA_def env0_def)
  have fail: "failed (Return (Inl (ErrorsNew ''failed to parse TLS CA PEM certificate'')))"
    by simp
  note th = GetHttpTransport_failure_not_cached [OF call fail]
  from th have p: "ptc (init_state\<lparr>decryptCalls := 1\<rparr>) = ptc init_state" by blast
  from th have f: "fst (GetHttpTransport env0 dsBadCA (init_state\<lparr>decryptCalls := 1\<rparr>)) =
       Return (Inl (ErrorsNew ''failed to parse TLS CA PEM certificate''))" by blast
  from th have "snd (GetHttpTransport env0 dsBadCA (init_state\<lparr>decryptCalls := 1\<rparr>)) =
       init_state\<lparr>decryptCalls := 1\<rparr>
         \<lparr>decryptCalls := Suc (decryptCalls (init_state\<lparr>decryptCalls := 1\<rparr>))\<rparr>" by blast
  then have s: "snd (GetHttpTransport env0 dsBadCA (init_state\<lparr>decryptCalls := 1\<rparr>)) =
       init_state\<lparr>decryptCalls := 2\<rparr>" by simp
  have pf: "fst (GetHttpTransport env0 dsUnknown init_state) =
       Panicked (UnsupportedDatasource ''unknown-plugin'')"
    by (simp add: build_defs init_state_def dsUnknown_def dsES_def env0_def
          scanHeaders_stop headerName_def suffix_simps)
  then have pcall: "GetHttpTransport env0 dsUnknown init_state =
      (Panicked (UnsupportedDatasource ''unknown-plugin''),
       snd (GetHttpTransport env0 dsUnknown init_state))"
    by (cases "GetHttpTransport env0 dsUnknown init_state") simp
  have pfail: "failed (Panicked (UnsupportedDatasource ''unknown-plugin''))" by simp
  note ph = GetHttpTransport_failure_not_cached [OF pcall pfail]
  from ph have pp: "ptc (snd (GetHttpTransport env0 dsUnknown init_state)) = ptc init_state"
    by blast
  from ph have pa: "fst (GetHttpTransport env0 dsUnknown
       (snd (GetHttpTransport env0 dsUnknown init_state))) =
       Panicked (UnsupportedDatasource ''unknown-plugin'')" by blast
  show ?thesis using call fail p f s pf pfail pp pa by blast
qed

text \<open>
  The claim C1 as stated fails: for a resource with \<open>sigV4Auth\<close> set and a type that
  \<open>awsServiceNamespace\<close> does not know, the call panics when the setting
  \<open>SigV4AuthEnabled\<close> is on (no error value is returned), and succeeds when it is off.
\<close>

theorem GetHttpTransport_unrecognized_counterexample:
  "sigV4Auth dsUnknown
   \<and> \<not> recognized env0 (Type dsUnknown)
   \<and> fst (GetHttpTransport env0 dsUnknown init_state) =
       Panicked (UnsupportedDatasource ''unknown-plugin'')
   \<and> \<not> recognized envOff (Type dsUnknown)
   \<and> fst (GetHttpTransport envOff dsUnknown init_state) = Return (Inr 1)"
  by (simp add: build_defs init_state_def dsUnknown_def dsES_def envOff_def env0_def
        sigV4Auth_def recognized_def scanHeaders_stop headerName_def suffix_simps)

text \<open>
  C1, amended: for a resource with \<open>sigV4Auth\<close> set in its configuration and a type that
  is not recognized, a \<open>GetHttpTransport\<close> call that misses the cache and gets a TLS
  configuration panics with "Unsupported datasource" during the build, leaving the
  transport cache as it was, when the process-wide setting \<open>SigV4AuthEnabled\<close> is on; when
  the setting is off the call returns a new handler.
\<close>

theorem GetHttpTransport_unrecognized_panics:
  assumes auth: "sigV4Auth ds" and unknown: "\<not> recognized env (Type ds)"
      and miss: "\<not> cacheValid ds s" and tls: "fst (GetTLSConfig env ds s) = Inr cfg"
  shows "(SigV4AuthEnabled env \<longrightarrow>
            fst (GetHttpTransport env ds s) = Panicked (UnsupportedDatasource (Type ds))
            \<and> ptc (snd (GetHttpTransport env ds s)) = ptc s)
       \<and> (\<not> SigV4AuthEnabled env \<longrightarrow>
            fst (GetHttpTransport env ds s) = Return (Inr (Suc (length (heap s)))))"
proof -
  have on: "fst (GetHttpTransport env ds s) = Panicked (UnsupportedDatasource (Type ds))
           \<and> ptc (snd (GetHttpTransport env ds s)) = ptc s"
    if "SigV4AuthEnabled env"
  proof -
    have "nextOf env ds s (length (heap s)) = Panicked (UnsupportedDatasource (Type ds))"
      using auth that unknown by (simp add: nextOf_panic_iff sigV4Wanted_iff)
    then show ?thesis
      using buildHttpTransport_tls_ok [OF tls] by (simp add: GetHttpTransport_miss [OF miss])
  qed
  have off: "fst (GetHttpTransport env ds s) = Return (Inr (Suc (length (heap s))))"
    if "\<not> SigV4AuthEnabled env"
  proof -
    have "nextOf env ds s (length (heap s)) = Return (BaseTransport (length (heap s)))"
      using that by (simp add: nextOf_plain sigV4Wanted_iff)
    then show ?thesis
      using buildHttpTransport_tls_ok [OF tls] by (simp add: GetHttpTransport_miss [OF miss])
  qed
  show ?thesis using on off by blast
qed

theorem GetHttpTransport_unrecognized_panics_witness:
  "sigV4Auth dsUnknown \<and> \<not> recognized env0 (Type dsUnknown) \<and> \<not> cacheValid dsUnknown init_state
   \<and> fst (GetTLSConfig env0 dsUnknown init_state) =
       Inr \<lparr>InsecureSkipVerify = False, ServerName = [], RootCAs = None, Certificates = [],
            Renegotiation = RenegotiateNever\<rparr>
   \<and> SigV4AuthEnabled env0
   \<and> fst (GetHttpTransport env0 dsUnknown init_state) = Panicked (UnsupportedDatasource ''unknown-plugin'')
   \<and> ptc (snd (GetHttpTransport env0 dsUnknown init_state)) = Map.empty
   \<and> \<not> recognized envOff (Type dsUnknown)
   \<and> fst (GetTLSConfig envOff dsUnknown init_state) =
       Inr \<lparr>InsecureSkipVerify = False, ServerName = [], RootCAs = None, Certificates = [],
            Renegotiation = RenegotiateNever\<rparr>
   \<and> \<not> SigV4AuthEnabled envOff
   \<and> fst (GetHttpTransport envOff dsUnknown init_state) = Return (Inr 1)"
proof -
  have a: "sigV4Auth dsUnknown" by (simp add: sigV4Auth_def dsUnknown_def dsES_def)
  have u: "\<not> recognized env0 (Type dsUnknown)"
    by (simp add: recognized_def dsUnknown_def dsES_def env0_def)
  have u': "\<not> recognized envOff (Type dsUnknown)"
    by (simp add: recognized_def dsUnknown_def dsES_def env0_def envOff_def)
  have m: "\<not> cacheValid dsUnknown init_state" by (simp add: cacheValid_def init_state_def)
  have t: "fst (GetTLSConfig env0 dsUnknown init_state) =
       Inr \<lparr>InsecureSkipVerify = False, ServerName = [], RootCAs = None, Certificates = [],
            Renegotiation = RenegotiateNever\<rparr>"
    by (simp add: GetTLSConfig_def dsUnknown_def dsES_def)
  have t': "fst (GetTLSConfig envOff dsUnknown init_state) =
       Inr \<lparr>InsecureSkipVerify = False, ServerName = [], RootCAs = None, Certificates = [],
            Renegotiation = RenegotiateNever\<rparr>"
    by (simp add: GetTLSConfig_def dsUnknown_def dsES_def)
  have on: "SigV4AuthEnabled env0" by (simp add: env0_def)
  have off: "\<not> SigV4AuthEnabled envOff" by (simp add: envOff_def)
  have ty: "Type dsUnknown = ''unknown-plugin''" by (simp add: dsUnknown_def dsES_def)
  have p: "ptc init_state = Map.empty" by (simp add: init_state_def)
  have l: "length (heap init_state) = 0" by (simp add: init_state_def)
  show ?thesis
    using GetHttpTransport_unrecognized_panics [OF a u m t]
          GetHttpTransport_unrecognized_panics [OF a u' m t']
          a u u' m t t' on off ty p l by simp
qed

section \<open>The delegate of the handler\<close>

text \<open>
  The claim C5 as stated fails: the example resource has signing switched on in its own
  configuration and a recognized type, yet with the setting \<open>SigV4AuthEnabled\<close> off its
  handler delegates to the base transport, not to a signer.
\<close>

theorem GetHttpTransport_signer_counterexample:
  "sigV4Auth dsES
   \<and> recognized envOff (Type dsES)
   \<and> fst (GetHttpTransport envOff dsES init_state) = Return (Inr 1)
   \<and> heap (snd (GetHttpTransport envOff dsES init_state)) ! 1 =
       DataSourceTransportObj
         \<lparr>datasourceName = ''es'', headers = Map.empty, transport = 0, next = BaseTransport 0\<rparr>"
  by (simp add: build_defs init_state_def dsES_def envOff_def env0_def
        sigV4Auth_def recognized_def scanHeaders_stop headerName_def suffix_simps)

text \<open>
  C5, amended: after a cache miss with a TLS configuration built, if signing is switched on
  in the resource's configuration and in the process-wide setting \<open>SigV4AuthEnabled\<close>, and
  the type is recognized, the new handler delegates to a signer that wraps the new base
  transport; the signer's configuration holds the service namespace and the access and
  secret keys read from the decrypted values during the build. If signing is off in the
  resource's configuration or in the setting, the handler delegates to the base transport
  itself.
\<close>

theorem GetHttpTransport_next_delegate:
  assumes miss: "\<not> cacheValid ds s" and tls: "fst (GetTLSConfig env ds s) = Inr cfg"
  shows "(sigV4Auth ds \<and> SigV4AuthEnabled env \<and> recognized env (Type ds) \<longrightarrow>
            (\<exists>c d T. fst (GetHttpTransport env ds s) = Return (Inr (Suc (length (heap s))))
               \<and> heap (snd (GetHttpTransport env ds s)) ! Suc (length (heap s)) =
                   DataSourceTransportObj d
               \<and> heap (snd (GetHttpTransport env ds s)) ! transport d = HttpTransportObj T
               \<and> next d = SigV4 c (BaseTransport (transport d))
               \<and> awsServiceNamespace env (Type ds) = Return (Service c)
               \<and> AccessKey c = index_map (fst (DecryptedValues env ds s)) ''sigV4AccessKey''
               \<and> SecretKey c = index_map (fst (DecryptedValues env ds s)) ''sigV4SecretKey''))
       \<and> (\<not> (sigV4Auth ds \<and> SigV4AuthEnabled env) \<longrightarrow>
            (\<exists>d T. fst (GetHttpTransport env ds s) = Return (Inr (Suc (length (heap s))))
               \<and> heap (snd (GetHttpTransport env ds s)) ! Suc (length (heap s)) =
                   DataSourceTransportObj d
               \<and> heap (snd (GetHttpTransport env ds s)) ! transport d = HttpTransportObj T
               \<and> next d = BaseTransport (transport d)))"
proof -
  note ok = buildHttpTransport_tls_ok [OF tls]
  have eq: "GetHttpTransport env ds s = buildHttpTransport env ds s"
    using miss by (rule GetHttpTransport_miss)
  have signed: "\<exists>c d T. fst (GetHttpTransport env ds s) = Return (Inr (Suc (length (heap s))))
               \<and> heap (snd (GetHttpTransport env ds s)) ! Suc (length (heap s)) =
                   DataSourceTransportObj d
               \<and> heap (snd (GetHttpTransport env ds s)) ! transport d = HttpTransportObj T
               \<and> next d = SigV4 c (BaseTransport (transport d))
               \<and> awsServiceNamespace env (Type ds) = Return (Service c)
               \<and> AccessKey c = index_map (fst (DecryptedValues env ds s)) ''sigV4AccessKey''
               \<and> SecretKey c = index_map (fst (DecryptedValues env ds s)) ''sigV4SecretKey''"
    if w: "sigV4Auth ds \<and> SigV4AuthEnabled env \<and> recognized env (Type ds)"
  proof -
    from w have wanted: "sigV4Wanted env ds" by (simp add: sigV4Wanted_iff)
    from w obtain svc where svc: "awsServiceNamespace env (Type ds) = Return svc"
      using awsServiceNamespace_recognized by blast
    obtain c where n: "nextOf env ds s (length (heap s)) = Return (SigV4 c (BaseTransport (length (heap s))))"
      and c: "Service c = svc"
         "AccessKey c = index_map (fst (DecryptedValues env ds s)) ''sigV4AccessKey''"
         "SecretKey c = index_map (fst (DecryptedValues env ds s)) ''sigV4SecretKey''"
      using nextOf_signed [OF wanted, of s "length (heap s)"] svc by simp
    from ok n obtain T where
        r: "fst (buildHttpTransport env ds s) = Return (Inr (Suc (length (heap s))))"
      and h: "heap (snd (buildHttpTransport env ds s)) =
               heap s @ [HttpTransportObj T,
                         DataSourceTransportObj
                           \<lparr>datasourceName = Name ds,
                            headers = fst (getCustomHeaders env ds s),
                            transport = length (heap s),
                            next = SigV4 c (BaseTransport (length (heap s)))\<rparr>]"
      by auto
    show ?thesis
      unfolding eq using r h c svc
      by (intro exI [of _ c] exI [of _ "\<lparr>datasourceName = Name ds,
                            headers = fst (getCustomHeaders env ds s),
                            transport = length (heap s),
                            next = SigV4 c (BaseTransport (length (heap s)))\<rparr>"] exI [of _ T])
         (simp add: nth_append)
  qed
  have plain: "\<exists>d T. fst (GetHttpTransport env ds s) = Return (Inr (Suc (length (heap s))))
               \<and> heap (snd (GetHttpTransport env ds s)) ! Suc (length (heap s)) =
                   DataSourceTransportObj d
               \<and> heap (snd (GetHttpTransport env ds s)) ! transport d = HttpTransportObj T
               \<and> next d = BaseTransport (transport d)"
    if w: "\<not> (sigV4Auth ds \<and> SigV4AuthEnabled env)"
  proof -
    from w have "\<not> sigV4Wanted env ds" by (simp add: sigV4Wanted_iff)
    then have n: "nextOf env ds s (length (heap s)) = Return (BaseTransport (length (heap s)))"
      by (rule nextOf_plain)
    from ok n obtain T where
        r: "fst (buildHttpTransport env ds s) = Return (Inr (Suc (length (heap s))))"
      and h: "heap (snd (buildHttpTransport env ds s)) =
               heap s @ [HttpTransportObj T,
                         DataSourceTransportObj
                           \<lparr>datasourceName = Name ds,
                            headers = fst (getCustomHeaders env ds s),
                            transport = length (heap s),
                            next = BaseTransport (length (heap s))\<rparr>]"
      by auto
    show ?thesis
      unfolding eq using r h
      by (intro exI [of _ "\<lparr>datasourceName = Name ds,
                            headers = fst (getCustomHeaders env ds s),
                            transport = length (heap s),
                            next = BaseTransport (length (heap s))\<rparr>"] exI [of _ T])
         (simp add: nth_append)
  qed
  show ?thesis using signed plain by blast
qed

theorem GetHttpTransport_next_delegate_witness:
  "\<not> cacheValid dsES init_state
   \<and> fst (GetTLSConfig env0 dsES init_state) =
       Inr \<lparr>InsecureSkipVerify = False, ServerName = [], RootCAs = None, Certificates = [],
            Renegotiation = RenegotiateNever\<rparr>
   \<and> sigV4Auth dsES \<and> SigV4AuthEnabled env0 \<and> recognized env0 (Type dsES)
   \<and> (\<exists>c d T. fst (GetHttpTransport env0 dsES init_state) = Return (Inr 1)
               \<and> heap (snd (GetHttpTransport env0 dsES init_state)) ! 1 = DataSourceTransportObj d
               \<and> heap (snd (GetHttpTransport env0 dsES init_state)) ! transport d = HttpTransportObj T
               \<and> next d = SigV4 c (BaseTransport (transport d))
               \<and> Service c = ''es'' \<and> AccessKey c = ''AK'' \<and> SecretKey c = ''SK'')
   \<and> \<not> cacheValid dsPlain init_state
   \<and> fst (GetTLSConfig env0 dsPlain init_state) =
       Inr \<lparr>InsecureSkipVerify = False, ServerName = [], RootCAs = None, Certificates = [],
            Renegotiation = RenegotiateNever\<rparr>
   \<and> \<not> sigV4Auth dsPlain
   \<and> (\<exists>d T. fst (GetHttpTransport env0 dsPlain init_state) = Return (Inr 1)
               \<and> heap (snd (GetHttpTransport env0 dsPlain init_state)) ! 1 = DataSourceTransportObj d
               \<and> heap (snd (GetHttpTransport env0 dsPlain init_state)) ! transport d = HttpTransportObj T
               \<and> next d = BaseTransport (transport d))"
proof -
  have m: "\<not> cacheValid dsES init_state" by (simp add: cacheValid_def init_state_def)
  have t: "fst (GetTLSConfig env0 dsES init_state) =
       Inr \<lparr>InsecureSkipVerify = False, ServerName = [], RootCAs = None, Certificates = [],
            Renegotiation = RenegotiateNever\<rparr>"
    by (simp add: GetTLSConfig_def dsES_def)
  have w: "sigV4Auth dsES \<and> SigV4AuthEnabled env0 \<and> recognized env0 (Type dsES)"
    by (simp add: sigV4Auth_def dsES_def env0_def recognized_def)
  have svc: "awsServiceNamespace env0 (Type dsES) = Return ''es''"
    by (simp add: awsServiceNamespace_def dsES_def env0_def)
  have k: "index_map (fst (DecryptedValues env0 dsES init_state)) ''sigV4AccessKey'' = ''AK''"
          "index_map (fst (DecryptedValues env0 dsES init_state)) ''sigV4SecretKey'' = ''SK''"
    by (simp_all add: DecryptedValues_def callDecrypt_def init_state_def dsES_def env0_def
          index_map_def)
  have l: "length (heap init_state) = 0" by (simp add: init_state_def)
  have signed: "\<exists>c d T. fst (GetHttpTransport env0 dsES init_state) = Return (Inr 1)
               \<and> heap (snd (GetHttpTransport env0 dsES init_state)) ! 1 = DataSourceTransportObj d
               \<and> heap (snd (GetHttpTransport env0 dsES init_state)) ! transport d = HttpTransportObj T
               \<and> next d = SigV4 c (BaseTransport (transport d))
               \<and> Service c = ''es'' \<and> AccessKey c = ''AK'' \<and> SecretKey c = ''SK''"
    using GetHttpTransport_next_delegate [OF m t] w svc k l by auto
  have m': "\<not> cacheValid dsPlain init_state" by (simp add: cacheValid_def init_state_def)
  have t': "fst (GetTLSConfig env0 dsPlain init_state) =
       Inr \<lparr>InsecureSkipVerify = False, ServerName = [], RootCAs = None, Certificates = [],
            Renegotiation = RenegotiateNever\<rparr>"
    by (simp add: GetTLSConfig_def dsPlain_def)
  have w': "\<not> sigV4Auth dsPlain" by (simp add: sigV4Auth_def dsPlain_def)
  have plain: "\<exists>d T. fst (GetHttpTransport env0 dsPlain init_state) = Return (Inr 1)
               \<and> heap (snd (GetHttpTransport env0 dsPlain init_state)) ! 1 = DataSourceTransportObj d
               \<and> heap (snd (GetHttpTransport env0 dsPlain init_state)) ! transport d = HttpTransportObj T
               \<and> next d = BaseTransport (transport d)"
    using GetHttpTransport_next_delegate [OF m' t'] w' l by auto
  show ?thesis using m t w signed m' t' w' plain by blast
qed

section \<open>Renegotiation\<close>

lemma renegotiates_append: "renegotiates hp h \<Longrightarrow> renegotiates (hp @ xs) h"
  by (auto simp: renegotiates_def nth_append split: obj.splits)

lemma renegotiates_new:
  "Renegotiation (TLSClientConfig T) = RenegotiateFreelyAsClient \<Longrightarrow> transport d = length hp \<Longrightarrow>
     renegotiates (hp @ [HttpTransportObj T, DataSourceTransportObj d]) (Suc (length hp))"
  by (simp add: renegotiates_def nth_append)

lemma cache_renegotiates_init: "cache_renegotiates init_state"
  by (simp add: cache_renegotiates_def init_state_def)

text \<open>What a build that gives a handler leaves behind.\<close>

lemma buildHttpTransport_built:
  assumes "buildHttpTransport env ds s = (Return (Inr h), s')"
  shows "\<exists>cfg T d. fst (GetTLSConfig env ds s) = Inr cfg
           \<and> h = Suc (length (heap s))
           \<and> heap s' = heap s @ [HttpTransportObj T, DataSourceTransportObj d]
           \<and> transport d = length (heap s)
           \<and> TLSClientConfig T = cfg\<lparr>Renegotiation := RenegotiateFreelyAsClient\<rparr>
           \<and> ptc s' = (ptc s)(DsId ds \<mapsto> \<lparr>ct_updated = Updated ds, ct_dataSourceTransport = h\<rparr>)"
proof (cases "fst (GetTLSConfig env ds s)")
  case (Inl err)
  then show ?thesis using assms by (simp add: buildHttpTransport_tls_error)
next
  case (Inr cfg)
  note ok = buildHttpTransport_tls_ok [OF Inr, unfolded assms, simplified]
  show ?thesis
  proof (cases "nextOf env ds s (length (heap s))")
    case (Panicked p)
    then show ?thesis using ok by simp
  next
    case (Return nxt)
    then show ?thesis using ok Inr by auto
  qed
qed

lemma buildHttpTransport_heap:
  "\<exists>xs. heap (snd (buildHttpTransport env ds s)) = heap s @ xs"
proof (cases "fst (GetTLSConfig env ds s)")
  case (Inl err)
  have "heap (snd (GetTLSConfig env ds s)) = heap s"
    using GetTLSConfig_state [of env ds s] by (cases "GetTLSConfig env ds s") simp
  then show ?thesis using Inl by (simp add: buildHttpTransport_tls_error)
next
  case (Inr cfg)
  note ok = buildHttpTransport_tls_ok [OF Inr]
  show ?thesis
  proof (cases "nextOf env ds s (length (heap s))")
    case (Panicked p)
    then show ?thesis using ok by auto
  next
    case (Return nxt)
    then show ?thesis using ok by auto
  qed
qed

lemma GetHttpTransport_heap:
  "\<exists>xs. heap (snd (GetHttpTransport env ds s)) = heap s @ xs"
proof (cases "cacheValid ds s")
  case True
  then show ?thesis
    by (auto simp: GetHttpTransport_def cacheValid_def split: option.splits)
next
  case False
  then show ?thesis using buildHttpTransport_heap by (simp add: GetHttpTransport_miss)
qed

text \<open>
  C9: every handler that \<open>GetHttpTransport\<close> returns has a base transport whose TLS
  configuration permits renegotiation freely initiated by the client. The property holds
  of every cached handler in the initial state (\<open>cache_renegotiates_init\<close>) and is kept
  by every call. On a build the transport carries the configuration that \<open>GetTLSConfig\<close>
  produced, with the renegotiation field set by \<open>GetHttpTransport\<close> (line 95).
\<close>

theorem GetHttpTransport_renegotiation:
  assumes inv: "cache_renegotiates s" and call: "GetHttpTransport env ds s = (r, s')"
  shows "cache_renegotiates s'
       \<and> (\<forall>h. r = Return (Inr h) \<longrightarrow>
            renegotiates (heap s') h
            \<and> (\<not> cacheValid ds s \<longrightarrow>
                 (\<exists>cfg d T. fst (GetTLSConfig env ds s) = Inr cfg
                    \<and> Renegotiation cfg = RenegotiateNever
                    \<and> heap s' ! h = DataSourceTransportObj d
                    \<and> heap s' ! transport d = HttpTransportObj T
                    \<and> TLSClientConfig T = cfg\<lparr>Renegotiation := RenegotiateFreelyAsClient\<rparr>)))"
proof (cases "cacheValid ds s")
  case True
  then obtain t where t: "ptc s (DsId ds) = Some t" "Updated ds = ct_updated t"
    by (auto simp: cacheValid_def split: option.splits)
  then have "r = Return (Inr (ct_dataSourceTransport t))" "s' = s"
    using call by (simp_all add: GetHttpTransport_hit)
  then show ?thesis using inv t True by (auto simp: cache_renegotiates_def)
next
  case False
  then have b: "buildHttpTransport env ds s = (r, s')"
    using call by (simp add: GetHttpTransport_miss)
  show ?thesis
  proof (cases "failed r")
    case True
    from buildHttpTransport_failed [of env ds s] b True
    have p: "ptc s' = ptc s" by simp
    from buildHttpTransport_heap [of env ds s] b obtain xs where h: "heap s' = heap s @ xs"
      by auto
    have "cache_renegotiates s'"
      using inv p h by (auto simp: cache_renegotiates_def intro: renegotiates_append)
    then show ?thesis using True by (auto simp: failed_iff)
  next
    case notfailed: False
    then obtain h where r: "r = Return (Inr h)" by (auto simp: failed_iff)
    from buildHttpTransport_built [OF b [unfolded r]] obtain cfg T d where
        cfg: "fst (GetTLSConfig env ds s) = Inr cfg"
      and h: "h = Suc (length (heap s))"
      and hp: "heap s' = heap s @ [HttpTransportObj T, DataSourceTransportObj d]"
      and d: "transport d = length (heap s)"
      and T: "TLSClientConfig T = cfg\<lparr>Renegotiation := RenegotiateFreelyAsClient\<rparr>"
      and p: "ptc s' = (ptc s)(DsId ds \<mapsto> \<lparr>ct_updated = Updated ds, ct_dataSourceTransport = h\<rparr>)"
      by blast
    have new: "renegotiates (heap s') h"
      unfolding hp h using T d by (intro renegotiates_new) simp_all
    have inv': "cache_renegotiates s'"
      unfolding cache_renegotiates_def
    proof (intro allI impI)
      fix i t assume e: "ptc s' i = Some t"
      show "renegotiates (heap s') (ct_dataSourceTransport t)"
      proof (cases "i = DsId ds")
        case True
        then have "ct_dataSourceTransport t = h" using e p by auto
        then show ?thesis using new by simp
      next
        case False
        then have "ptc s i = Some t" using e p by simp
        then have "renegotiates (heap s) (ct_dataSourceTransport t)"
          using inv by (simp add: cache_renegotiates_def)
        then show ?thesis unfolding hp by (rule renegotiates_append)
      qed
    qed
    have never: "Renegotiation cfg = RenegotiateNever"
      using cfg by (auto simp: GetTLSConfig_def Let_def callDecrypt_def AppendCertsFromPEM_def
           split: if_splits sum.splits prod.splits)
    have "heap s' ! h = DataSourceTransportObj d" "heap s' ! transport d = HttpTransportObj T"
      unfolding hp h d by (simp_all add: nth_append)
    then show ?thesis using inv' new r cfg T never by auto
  qed
qed

theorem GetHttpTransport_renegotiation_witness:
  "cache_renegotiates init_state
   \<and> GetHttpTransport env0 dsPlain init_state = (Return (Inr 1), statePlain)
   \<and> cache_renegotiates statePlain
   \<and> renegotiates (heap statePlain) 1"
  using GetHttpTransport_renegotiation [OF cache_renegotiates_init build_dsPlain]
        cache_renegotiates_init build_dsPlain
  by simp


section \<open>Replacing a stale entry\<close>








end
